theory Spec2Isabelle
  imports Complex_Main "HOL-Library.Word" "HOL-Library.Sublist" "HOL-Library.AList"
begin

unbundle bit_operations_syntax

section \<open>Strings and bytes\<close>

text \<open>
  A JavaScript string is a sequence of 16-bit code units; the regular expressions of
  \<^verbatim>\<open>getPngName\<close> and of the \<^verbatim>\<open>sanitize-filename\<close> package carry no \<^verbatim>\<open>u\<close> flag and so work
  on code units. File contents and serialized payloads are byte sequences.
\<close>

type_synonym unit16 = "16 word"
type_synonym ustring = "unit16 list"
type_synonym byte = "8 word"
type_synonym bytes = "byte list"

definition ustr :: "string \<Rightarrow> ustring" where
  "ustr s = map of_char s"

section \<open>File-name sanitization\<close>

subsection \<open>The sanitize-filename package\<close>

text \<open>
  \<^verbatim>\<open>sanitize\<close> is imported from the npm package \<^verbatim>\<open>sanitize-filename\<close>, which is not part of
  the repository's sources. The definitions below follow that package (version 1.6):
  with the default empty replacement it removes the illegal characters, the C0 and C1
  control codes, a name made only of dots, a Windows device name, trailing dots and
  spaces, in this order, and truncates the result to 255 bytes of UTF-8.
\<close>

definition illegalRe :: "unit16 \<Rightarrow> bool" where
  \<comment> \<open>\<^verbatim>\<open>/[\/\?<>\\:\*\|"]/g\<close>\<close>
  "illegalRe c \<longleftrightarrow> c \<in> {0x2F, 0x3F, 0x3C, 0x3E, 0x5C, 0x3A, 0x2A, 0x7C, 0x22}"

definition controlRe :: "unit16 \<Rightarrow> bool" where
  \<comment> \<open>\<^verbatim>\<open>/[\x00-\x1f\x80-\x9f]/g\<close>\<close>
  "controlRe c \<longleftrightarrow> c \<le> 0x1F \<or> (0x80 \<le> c \<and> c \<le> 0x9F)"

definition reservedRe :: "ustring \<Rightarrow> bool" where
  \<comment> \<open>\<^verbatim>\<open>/^\.+$/\<close>\<close>
  "reservedRe s \<longleftrightarrow> s \<noteq> [] \<and> list_all (\<lambda>c. c = 0x2E) s"

definition toLowerASCII :: "unit16 \<Rightarrow> unit16" where
  "toLowerASCII c = (if 0x41 \<le> c \<and> c \<le> 0x5A then c + 0x20 else c)"

definition isDigit :: "unit16 \<Rightarrow> bool" where
  "isDigit c \<longleftrightarrow> 0x30 \<le> c \<and> c \<le> 0x39"

definition isLineTerminator :: "unit16 \<Rightarrow> bool" where
  "isLineTerminator c \<longleftrightarrow> c \<in> {0x0A, 0x0D, 0x2028, 0x2029}"

definition deviceName :: "ustring \<Rightarrow> bool" where
  \<comment> \<open>\<^verbatim>\<open>(con|prn|aux|nul|com[0-9]|lpt[0-9])\<close> under the \<^verbatim>\<open>i\<close> flag\<close>
  "deviceName b \<longleftrightarrow>
     (let l = map toLowerASCII b in
        l \<in> {ustr ''con'', ustr ''prn'', ustr ''aux'', ustr ''nul''} \<or>
        (length l = 4 \<and> take 3 l \<in> {ustr ''com'', ustr ''lpt''} \<and> isDigit (l ! 3)))"

definition deviceExt :: "ustring \<Rightarrow> bool" where
  \<comment> \<open>\<^verbatim>\<open>(\..*)?$\<close>: nothing, or a dot followed by anything but a line terminator\<close>
  "deviceExt r \<longleftrightarrow>
     (case r of [] \<Rightarrow> True | c # t \<Rightarrow> c = 0x2E \<and> list_all (\<lambda>d. \<not> isLineTerminator d) t)"

definition windowsReservedRe :: "ustring \<Rightarrow> bool" where
  \<comment> \<open>\<^verbatim>\<open>/^(con|prn|aux|nul|com[0-9]|lpt[0-9])(\..*)?$/i\<close>\<close>
  "windowsReservedRe s \<longleftrightarrow>
     (deviceName (take 3 s) \<and> deviceExt (drop 3 s)) \<or>
     (deviceName (take 4 s) \<and> deviceExt (drop 4 s))"

definition windowsTrailingRe :: "unit16 \<Rightarrow> bool" where
  \<comment> \<open>the class \<^verbatim>\<open>[\. ]\<close> of \<^verbatim>\<open>/[\. ]+$/\<close>\<close>
  "windowsTrailingRe c \<longleftrightarrow> c = 0x2E \<or> c = 0x20"

definition isHighSurrogate :: "unit16 \<Rightarrow> bool" where
  "isHighSurrogate c \<longleftrightarrow> 0xD800 \<le> c \<and> c \<le> 0xDBFF"

definition isLowSurrogate :: "unit16 \<Rightarrow> bool" where
  "isLowSurrogate c \<longleftrightarrow> 0xDC00 \<le> c \<and> c \<le> 0xDFFF"

definition unitByteLength :: "unit16 \<Rightarrow> nat" where
  \<comment> \<open>\<^verbatim>\<open>Buffer.byteLength\<close> of one code unit; a lone surrogate is written as U+FFFD\<close>
  "unitByteLength c = (if c < 0x80 then 1 else if c < 0x800 then 2 else 3)"

text \<open>
  \<^verbatim>\<open>truncate-utf8-bytes\<close>: walk the string segment by segment (a surrogate pair is one segment
  of four bytes), stop with the segment included when the byte count meets the limit and
  before the segment when it exceeds it.
\<close>

fun truncate_from :: "nat \<Rightarrow> nat \<Rightarrow> ustring \<Rightarrow> ustring" where
  "truncate_from byteLength cur [] = []"
| "truncate_from byteLength cur [c] =
     (if cur + unitByteLength c \<le> byteLength then [c] else [])"
| "truncate_from byteLength cur (c # d # s) =
     (if isHighSurrogate c \<and> isLowSurrogate d then
        (if cur + 4 = byteLength then [c, d]
         else if cur + 4 > byteLength then []
         else c # d # truncate_from byteLength (cur + 4) s)
      else
        (if cur + unitByteLength c = byteLength then [c]
         else if cur + unitByteLength c > byteLength then []
         else c # truncate_from byteLength (cur + unitByteLength c) (d # s)))"

definition truncateBytes :: "ustring \<Rightarrow> nat \<Rightarrow> ustring" where
  "truncateBytes s byteLength = truncate_from byteLength 0 s"

definition sanitize :: "ustring \<Rightarrow> ustring" where
  "sanitize input =
     (let s1 = filter (\<lambda>c. \<not> illegalRe c) input;
          s2 = filter (\<lambda>c. \<not> controlRe c) s1;
          s3 = (if reservedRe s2 then [] else s2);
          s4 = (if windowsReservedRe s3 then [] else s3);
          s5 = rev (dropWhile windowsTrailingRe (rev s4))
      in truncateBytes s5 255)"

subsection \<open>getPngName\<close>

definition keptRe :: "unit16 \<Rightarrow> bool" where
  \<comment> \<open>the class \<^verbatim>\<open>[a-zA-Z0-9\u4e00-\u9fff]\<close> whose complement \<^verbatim>\<open>getPngName\<close> replaces\<close>
  "keptRe c \<longleftrightarrow>
     (0x61 \<le> c \<and> c \<le> 0x7A) \<or> (0x41 \<le> c \<and> c \<le> 0x5A) \<or> (0x30 \<le> c \<and> c \<le> 0x39) \<or>
     (0x4E00 \<le> c \<and> c \<le> 0x9FFF)"

definition filler :: "unit16 \<Rightarrow> unit16" where
  "filler c = (if keptRe c then c else 0x5F)"

definition getPngName :: "ustring \<Rightarrow> ustring" where
  "getPngName name = map filler (sanitize name)"

section \<open>JavaScript values, exceptions and property access\<close>

text \<open>
  A thrown exception is a value; only its message is ever inspected by the code.
\<close>

datatype exn = Error ustring | TypeError ustring | SyntaxError ustring | SystemError ustring

fun message :: "exn \<Rightarrow> ustring" where
  "message (Error m) = m"
| "message (TypeError m) = m"
| "message (SyntaxError m) = m"
| "message (SystemError m) = m"

text \<open>
  The values that \<^verbatim>\<open>JSON.parse\<close> and \<^verbatim>\<open>yaml.parse\<close> return and that the code then
  mutates. An object is its list of properties in insertion order. An array carries, next
  to its elements, the named properties assigned to it (\<^verbatim>\<open>processCharacter\<close> assigns
  properties to whatever object \<^verbatim>\<open>JSON.parse\<close> returned). A missing property reads as
  \<^verbatim>\<open>undefined\<close>, modelled by \<open>None\<close>.
\<close>

datatype jsval =
    JNull
  | JBool bool
  | JNum real
  | JStr ustring
  | JArr "jsval list" "(ustring \<times> jsval) list"
  | JObj "(ustring \<times> jsval) list"

fun truthy :: "jsval \<Rightarrow> bool" where
  "truthy JNull = False"
| "truthy (JBool b) = b"
| "truthy (JNum n) = (n \<noteq> 0)"
| "truthy (JStr s) = (s \<noteq> [])"
| "truthy (JArr xs ps) = True"
| "truthy (JObj ps) = True"

definition truthyOpt :: "jsval option \<Rightarrow> bool" where
  "truthyOpt v = (case v of None \<Rightarrow> False | Some x \<Rightarrow> truthy x)"

definition orElse :: "jsval option \<Rightarrow> jsval \<Rightarrow> jsval" where
  \<comment> \<open>\<^verbatim>\<open>v || d\<close>\<close>
  "orElse v d = (case v of None \<Rightarrow> d | Some x \<Rightarrow> if truthy x then x else d)"

definition nullish :: "jsval option \<Rightarrow> jsval \<Rightarrow> jsval" where
  \<comment> \<open>\<^verbatim>\<open>v ?? d\<close>\<close>
  "nullish v d = (case v of None \<Rightarrow> d | Some JNull \<Rightarrow> d | Some x \<Rightarrow> x)"

text \<open>
  Property reads, writes and deletes. The file is an ES module and so runs in strict
  mode: reading or writing a property of \<^verbatim>\<open>null\<close> throws, and so does writing a property
  of a primitive. The property names the code reads (\<^verbatim>\<open>name\<close>, \<^verbatim>\<open>data\<close>, \<^verbatim>\<open>spec\<close>, ...)
  are not members of the built-in prototypes, so on a primitive they read as \<^verbatim>\<open>undefined\<close>.
\<close>

fun getProp :: "jsval \<Rightarrow> ustring \<Rightarrow> exn + jsval option" where
  "getProp JNull k = Inl (TypeError (ustr ''Cannot read properties of null''))"
| "getProp (JObj ps) k = Inr (map_of ps k)"
| "getProp (JArr xs ps) k = Inr (map_of ps k)"
| "getProp (JBool b) k = Inr None"
| "getProp (JNum n) k = Inr None"
| "getProp (JStr s) k = Inr None"

fun setProp :: "jsval \<Rightarrow> ustring \<Rightarrow> jsval \<Rightarrow> exn + jsval" where
  "setProp (JObj ps) k v = Inr (JObj (AList.update k v ps))"
| "setProp (JArr xs ps) k v = Inr (JArr xs (AList.update k v ps))"
| "setProp JNull k v = Inl (TypeError (ustr ''Cannot set properties of null''))"
| "setProp (JBool b) k v = Inl (TypeError (ustr ''Cannot create property''))"
| "setProp (JNum n) k v = Inl (TypeError (ustr ''Cannot create property''))"
| "setProp (JStr s) k v = Inl (TypeError (ustr ''Cannot create property''))"

fun deleteProp :: "jsval \<Rightarrow> ustring \<Rightarrow> exn + jsval" where
  "deleteProp (JObj ps) k = Inr (JObj (AList.delete k ps))"
| "deleteProp (JArr xs ps) k = Inr (JArr xs (AList.delete k ps))"
| "deleteProp JNull k = Inl (TypeError (ustr ''Cannot convert undefined or null to object''))"
| "deleteProp (JBool b) k = Inr (JBool b)"
| "deleteProp (JNum n) k = Inr (JNum n)"
| "deleteProp (JStr s) k = Inr (JStr s)"

definition thenE :: "exn + 'a \<Rightarrow> ('a \<Rightarrow> exn + 'b) \<Rightarrow> exn + 'b" where
  \<comment> \<open>sequencing of two steps, the first of which may throw\<close>
  "thenE r f = (case r of Inl e \<Rightarrow> Inl e | Inr x \<Rightarrow> f x)"

definition optionalName :: "jsval \<Rightarrow> exn + jsval option" where
  \<comment> \<open>\<^verbatim>\<open>jsonData.data?.name\<close>\<close>
  "optionalName jsonData =
     thenE (getProp jsonData (ustr ''data''))
       (\<lambda>d. case d of None \<Rightarrow> Inr None | Some JNull \<Rightarrow> Inr None
             | Some v \<Rightarrow> getProp v (ustr ''name''))"

definition sanitizeValue :: "jsval option \<Rightarrow> exn + ustring" where
  \<comment> \<open>\<^verbatim>\<open>sanitize(v)\<close> for a value of any type: the package throws unless it is a string\<close>
  "sanitizeValue v =
     (case v of Some (JStr s) \<Rightarrow> Inr (sanitize s)
      | _ \<Rightarrow> Inl (Error (ustr ''Input must be string'')))"

definition getPngNameValue :: "jsval option \<Rightarrow> exn + ustring" where
  \<comment> \<open>\<^verbatim>\<open>getPngName(v)\<close> for a value of any type\<close>
  "getPngNameValue v =
     (case v of Some (JStr s) \<Rightarrow> Inr (getPngName s)
      | _ \<Rightarrow> Inl (Error (ustr ''Input must be string'')))"


section \<open>The PNG chunk libraries\<close>

text \<open>
  \<^verbatim>\<open>png-chunks-extract\<close>, \<^verbatim>\<open>png-chunks-encode\<close> and \<^verbatim>\<open>png-chunk-text\<close> are npm packages, not part
  of the repository's sources. The definitions below follow the packages: a PNG file is the
  8-byte signature followed by chunks, each a 4-byte big-endian length, a 4-byte name, the
  data and the CRC-32 of name and data.
\<close>

definition validPngHeader :: bytes where
  "validPngHeader = [0x89, 0x50, 0x4E, 0x47, 0x0D, 0x0A, 0x1A, 0x0A]"

datatype chunk = Chunk (chunk_name: bytes) (chunk_data: bytes)

definition IHDR :: bytes where "IHDR = [0x49, 0x48, 0x44, 0x52]"
definition IEND :: bytes where "IEND = [0x49, 0x45, 0x4E, 0x44]"
definition tEXt :: bytes where "tEXt = [0x74, 0x45, 0x58, 0x74]"

definition crc_step :: "32 word \<Rightarrow> 32 word" where
  "crc_step c = (if c AND 1 = 1 then drop_bit 1 c XOR 0xEDB88320 else drop_bit 1 c)"

definition crc_byte :: "32 word \<Rightarrow> byte \<Rightarrow> 32 word" where
  "crc_byte c b = (crc_step ^^ 8) (c XOR ucast b)"

definition crc32 :: "bytes \<Rightarrow> 32 word" where
  "crc32 bs = foldl crc_byte 0xFFFFFFFF bs XOR 0xFFFFFFFF"

definition word_be32 :: "32 word \<Rightarrow> bytes" where
  "word_be32 w = [ucast (drop_bit 24 w), ucast (drop_bit 16 w), ucast (drop_bit 8 w), ucast w]"

definition be32 :: "nat \<Rightarrow> bytes" where
  "be32 n = word_be32 (of_nat n)"

definition uint32 :: "bytes \<Rightarrow> nat" where
  \<comment> \<open>the four bytes read as a big-endian \<^verbatim>\<open>Uint32\<close>\<close>
  "uint32 bs = unat (bs ! 0) * 2 ^ 24 + unat (bs ! 1) * 2 ^ 16 + unat (bs ! 2) * 2 ^ 8 + unat (bs ! 3)"

definition readBytes :: "bytes \<Rightarrow> nat \<Rightarrow> bytes" where
  \<comment> \<open>the next \<open>n\<close> bytes; a typed array stores a read past the end as 0\<close>
  "readBytes bs n = take n (bs @ replicate n 0)"

function extractFrom :: "chunk list \<Rightarrow> bytes \<Rightarrow> exn + chunk list" where
  "extractFrom chunks bs =
     (if bs = [] then
        Inl (Error (ustr ''.png file ended prematurely: no IEND header was found''))
      else
        (let len = uint32 (readBytes bs 4);
             name = readBytes (drop 4 bs) 4
         in if chunks = [] \<and> name \<noteq> IHDR then Inl (Error (ustr ''IHDR header missing''))
            else if name = IEND then Inr (chunks @ [Chunk name []])
            else
              (let chunkData = readBytes (drop 8 bs) len;
                   crcActual = readBytes (drop (8 + len) bs) 4
               in if word_be32 (crc32 (name @ chunkData)) \<noteq> crcActual then
                    Inl (Error (ustr ''CRC values for '' @ map ucast name @
                                  ustr '' header do not match, PNG file is likely corrupted''))
                  else extractFrom (chunks @ [Chunk name chunkData]) (drop (12 + len) bs))))"
  by pat_completeness auto
termination
  by (relation "measure (\<lambda>(chunks, bs). length bs)") auto

declare extractFrom.simps [simp del]

definition extractChunks :: "bytes \<Rightarrow> exn + chunk list" where
  \<comment> \<open>\<^verbatim>\<open>extract(data)\<close> of \<^verbatim>\<open>png-chunks-extract\<close>\<close>
  "extractChunks bs =
     (if take 4 (readBytes bs 8) \<noteq> take 4 validPngHeader then
        Inl (Error (ustr ''Invalid .png file header''))
      else if take 2 (drop 4 (readBytes bs 8)) \<noteq> take 2 (drop 4 validPngHeader) then
        Inl (Error (ustr ''Invalid .png file header: possibly caused by DOS-Unix line ending conversion?''))
      else if take 1 (drop 6 (readBytes bs 8)) \<noteq> take 1 (drop 6 validPngHeader) then
        Inl (Error (ustr ''Invalid .png file header''))
      else if drop 7 (readBytes bs 8) \<noteq> drop 7 validPngHeader then
        Inl (Error (ustr ''Invalid .png file header: possibly caused by DOS-Unix line ending conversion?''))
      else extractFrom [] (drop 8 bs))"

definition chunkBytes :: "chunk \<Rightarrow> bytes" where
  "chunkBytes c =
     be32 (length (chunk_data c)) @ chunk_name c @ chunk_data c @
     word_be32 (crc32 (chunk_name c @ chunk_data c))"

definition encodeChunks :: "chunk list \<Rightarrow> bytes" where
  \<comment> \<open>\<^verbatim>\<open>encode(chunks)\<close> of \<^verbatim>\<open>png-chunks-encode\<close>\<close>
  "encodeChunks chunks = validPngHeader @ concat (map chunkBytes chunks)"

definition PNGtext_decode :: "bytes \<Rightarrow> exn + bytes \<times> bytes" where
  \<comment> \<open>\<^verbatim>\<open>PNGtext.decode(data)\<close>: keyword and text, split at the first NUL; a second NUL throws\<close>
  "PNGtext_decode d =
     (let keyword = takeWhile (\<lambda>b. b \<noteq> 0) d;
          text = drop (length keyword + 1) d
      in if 0 \<in> set text then
           Inl (Error (ustr ''Invalid NULL character found. 0x00 character is not permitted in tEXt content''))
         else Inr (keyword, text))"

definition PNGtext_encode :: "bytes \<Rightarrow> bytes \<Rightarrow> chunk" where
  \<comment> \<open>\<^verbatim>\<open>PNGtext.encode(keyword, content)\<close> where it returns: for non-empty Latin-1 arguments
      and a keyword of less than 80 characters (the package throws on any other)\<close>
  "PNGtext_encode keyword content = Chunk tEXt (keyword @ [0] @ content)"

definition toLowerCase8 :: "bytes \<Rightarrow> bytes" where
  \<comment> \<open>\<^verbatim>\<open>toLowerCase()\<close> of a Latin-1 string\<close>
  "toLowerCase8 s =
     map (\<lambda>b. if (0x41 \<le> b \<and> b \<le> 0x5A) \<or> (0xC0 \<le> b \<and> b \<le> 0xDE \<and> b \<noteq> 0xD7) then b + 0x20 else b) s"

definition bstr :: "string \<Rightarrow> bytes" where
  "bstr s = map of_char s"

definition isCharaKeyword :: "bytes \<Rightarrow> bool" where
  \<comment> \<open>\<^verbatim>\<open>keyword.toLowerCase() === 'chara' || keyword.toLowerCase() === 'ccv3'\<close>\<close>
  "isCharaKeyword keyword \<longleftrightarrow>
     toLowerCase8 keyword = bstr ''chara'' \<or> toLowerCase8 keyword = bstr ''ccv3''"

section \<open>The file system\<close>

text \<open>
  The files on disk, by path, and the log of every \<^verbatim>\<open>fs.unlinkSync\<close> call with its
  outcome. Paths are compared as written, and \<^verbatim>\<open>path.join\<close> of a directory and a file
  name is the two joined by a slash. Writing a file always succeeds.
\<close>

record fsys =
  files :: "(ustring \<times> bytes) list"
  unlinks :: "(ustring \<times> bool) list"

definition path_join :: "ustring \<Rightarrow> ustring \<Rightarrow> ustring" where
  "path_join dir file = dir @ ustr ''/'' @ file"

definition existsSync :: "fsys \<Rightarrow> ustring \<Rightarrow> bool" where
  "existsSync fs p \<longleftrightarrow> map_of (files fs) p \<noteq> None"

definition readFileSync :: "fsys \<Rightarrow> ustring \<Rightarrow> exn + bytes" where
  "readFileSync fs p =
     (case map_of (files fs) p of
        None \<Rightarrow> Inl (SystemError (ustr ''ENOENT: no such file or directory''))
      | Some b \<Rightarrow> Inr b)"

definition unlinkSync :: "fsys \<Rightarrow> ustring \<Rightarrow> (exn + unit) \<times> fsys" where
  "unlinkSync fs p =
     (if existsSync fs p then
        (Inr (), fs\<lparr>files := AList.delete p (files fs), unlinks := unlinks fs @ [(p, True)]\<rparr>)
      else
        (Inl (SystemError (ustr ''ENOENT: no such file or directory'')),
         fs\<lparr>unlinks := unlinks fs @ [(p, False)]\<rparr>))"

definition writeFileAtomicSync :: "fsys \<Rightarrow> ustring \<Rightarrow> bytes \<Rightarrow> fsys" where
  "writeFileAtomicSync fs p b = fs\<lparr>files := AList.update p b (files fs)\<rparr>"

definition statSync :: "fsys \<Rightarrow> ustring \<Rightarrow> exn + nat" where
  \<comment> \<open>the size of the file\<close>
  "statSync fs p =
     (case map_of (files fs) p of
        None \<Rightarrow> Inl (SystemError (ustr ''ENOENT: no such file or directory''))
      | Some b \<Rightarrow> Inr (length b))"

definition readdirSync :: "fsys \<Rightarrow> ustring \<Rightarrow> ustring list" where
  \<comment> \<open>the names of the files directly in the directory\<close>
  "readdirSync fs dir =
     map (\<lambda>(p, b). drop (length dir + 1) p)
       (filter (\<lambda>(p, b). prefix (dir @ ustr ''/'') p \<and> 0x2F \<notin> set (drop (length dir + 1) p))
          (files fs))"

section \<open>The environment of the module\<close>

text \<open>
  What the module imports and what is not under the repository's sources is a parameter of
  the model: \<^verbatim>\<open>read\<close> and \<^verbatim>\<open>write\<close> of \<^verbatim>\<open>character-card-parser.js\<close> (the fields
  \<open>parser_read\<close> and \<open>parser_write\<close>), the built-in
  \<^verbatim>\<open>JSON\<close> object, the \<^verbatim>\<open>yaml\<close> and \<^verbatim>\<open>Jimp\<close> packages, \<^verbatim>\<open>Buffer.toString\<close>,
  \<^verbatim>\<open>path.parse\<close>, \<^verbatim>\<open>humanizedISO8601DateTime\<close> of \<^verbatim>\<open>util.js\<close>, the change time that
  \<^verbatim>\<open>fs.statSync\<close> reports, and the constants of \<^verbatim>\<open>constants.js\<close> and of the data root.
  \<^verbatim>\<open>read\<close> and \<^verbatim>\<open>Jimp.read\<close> accept a buffer or a path and may consult the files on disk.
\<close>

datatype rinput = Buffer bytes | FilePath ustring

datatype image = Bitmap nat nat bytes

datatype crop = Crop (crop_x: int) (crop_y: int) (crop_width: int) (crop_height: int) (want_resize: bool)

record env =
  parser_read :: "(ustring \<times> bytes) list \<Rightarrow> rinput \<Rightarrow> exn + ustring"
  parser_write :: "bytes \<Rightarrow> ustring \<Rightarrow> exn + bytes"
  JSON_parse :: "ustring \<Rightarrow> exn + jsval"
  JSON_stringify :: "jsval \<Rightarrow> ustring"
  yaml_parse :: "ustring \<Rightarrow> exn + jsval"
  toString_utf8 :: "bytes \<Rightarrow> ustring"
  path_parse_name :: "ustring \<Rightarrow> ustring"
  Jimp_read :: "(ustring \<times> bytes) list \<Rightarrow> rinput \<Rightarrow> exn + image"
  image_crop :: "image \<Rightarrow> int \<Rightarrow> int \<Rightarrow> int \<Rightarrow> int \<Rightarrow> exn + image"
  image_resize :: "image \<Rightarrow> nat \<Rightarrow> nat \<Rightarrow> exn + image"
  image_getBuffer :: "image \<Rightarrow> exn + bytes"
  humanizedISO8601DateTime :: "real option \<Rightarrow> ustring"
  ctimeMs :: "ustring \<Rightarrow> real"
  AVATAR_WIDTH :: nat
  AVATAR_HEIGHT :: nat
  DEFAULT_AVATAR_PATH :: ustring
  PUBLIC_CHARACTERS_DIR :: ustring

section \<open>The public character endpoints\<close>

subsection \<open>Reading and writing character data\<close>

definition readCharacterData :: "env \<Rightarrow> fsys \<Rightarrow> ustring \<Rightarrow> ustring \<Rightarrow> exn + ustring option" where
  \<comment> \<open>the whole body is one \<^verbatim>\<open>try\<close> whose \<^verbatim>\<open>catch\<close> returns \<^verbatim>\<open>undefined\<close>\<close>
  "readCharacterData E fs inputFile inputFormat =
     (case (if inputFormat = ustr ''png'' then parser_read E (files fs) (FilePath inputFile)
            else thenE (readFileSync fs inputFile) (\<lambda>fileData. Inr (toString_utf8 E fileData))) of
        Inl error \<Rightarrow> Inr None
      | Inr result \<Rightarrow> Inr (Some result))"

definition processImage :: "env \<Rightarrow> image \<Rightarrow> crop option \<Rightarrow> exn + bytes" where
  \<comment> \<open>the common tail of \<^verbatim>\<open>parseImageBuffer\<close> and \<^verbatim>\<open>tryReadImage\<close>: crop, resize, PNG buffer\<close>
  "processImage E img crop =
     thenE (case crop of None \<Rightarrow> Inr img
            | Some c \<Rightarrow> image_crop E img (crop_x c) (crop_y c) (crop_width c) (crop_height c))
       (\<lambda>img1.
          thenE (case crop of None \<Rightarrow> Inr img1
                 | Some c \<Rightarrow> if want_resize c then image_resize E img1 (AVATAR_WIDTH E) (AVATAR_HEIGHT E)
                             else Inr img1)
            (\<lambda>img2. image_getBuffer E img2))"

definition parseImageBuffer :: "env \<Rightarrow> fsys \<Rightarrow> bytes \<Rightarrow> crop option \<Rightarrow> exn + bytes" where
  "parseImageBuffer E fs buffer crop =
     thenE (Jimp_read E (files fs) (Buffer buffer)) (\<lambda>img. processImage E img crop)"

definition tryReadImage :: "env \<Rightarrow> fsys \<Rightarrow> ustring \<Rightarrow> crop option \<Rightarrow> exn + bytes" where
  "tryReadImage E fs filePath crop =
     thenE (Jimp_read E (files fs) (FilePath filePath)) (\<lambda>img. processImage E img crop)"

definition endsWith :: "ustring \<Rightarrow> ustring \<Rightarrow> bool" where
  "endsWith s t \<longleftrightarrow> suffix t s"

definition getInputImage :: "env \<Rightarrow> fsys \<Rightarrow> rinput \<Rightarrow> crop option \<Rightarrow> exn + bytes" where
  "getInputImage E fs inputFile crop =
     (case (case inputFile of
              Buffer b \<Rightarrow> parseImageBuffer E fs b crop
            | FilePath p \<Rightarrow> tryReadImage E fs p crop) of
        Inr img \<Rightarrow> Inr img
      | Inl error \<Rightarrow>
          (case inputFile of
             FilePath p \<Rightarrow>
               if endsWith p (ustr ''.png'') then
                 (case thenE (readFileSync fs p)
                         (\<lambda>originalBuffer. parseImageBuffer E fs originalBuffer crop) of
                    Inr processedImage \<Rightarrow> Inr processedImage
                  | Inl extractError \<Rightarrow> readFileSync fs (DEFAULT_AVATAR_PATH E))
               else readFileSync fs (DEFAULT_AVATAR_PATH E)
           | Buffer b \<Rightarrow> readFileSync fs (DEFAULT_AVATAR_PATH E)))"

definition writeCharacterData ::
  "env \<Rightarrow> fsys \<Rightarrow> rinput \<Rightarrow> ustring \<Rightarrow> ustring \<Rightarrow> crop option \<Rightarrow> bool \<times> fsys" where
  "writeCharacterData E fs inputFile data outputFile crop =
     (case getInputImage E fs inputFile crop of
        Inl err \<Rightarrow> (False, fs)
      | Inr inputImage \<Rightarrow>
          (case parser_write E inputImage data of
             Inl err \<Rightarrow> (False, fs)
           | Inr outputImage \<Rightarrow>
               (let outputImagePath = path_join (PUBLIC_CHARACTERS_DIR E) (outputFile @ ustr ''.png'');
                    fs1 = writeFileAtomicSync fs outputImagePath outputImage
                in case statSync fs1 outputImagePath of
                     Inl err \<Rightarrow> (False, fs1)
                   | Inr savedFileSize \<Rightarrow> (True, fs1))))"

subsection \<open>processCharacter and the listing\<close>

fun replaceFirst :: "ustring \<Rightarrow> ustring \<Rightarrow> ustring \<Rightarrow> ustring" where
  \<comment> \<open>\<^verbatim>\<open>s.replace(pat, rep)\<close> with a string pattern: the first occurrence only\<close>
  "replaceFirst pat rep [] = (if pat = [] then rep else [])"
| "replaceFirst pat rep (c # s) =
     (if prefix pat (c # s) then rep @ drop (length pat) (c # s)
      else c # replaceFirst pat rep s)"

definition processCharacter_try :: "env \<Rightarrow> fsys \<Rightarrow> ustring \<Rightarrow> exn + jsval" where
  "processCharacter_try E fs item =
     (let imgFile = path_join (PUBLIC_CHARACTERS_DIR E) item in
      thenE (case thenE (readFileSync fs imgFile)
                    (\<lambda>fileBuffer. parser_read E (files fs) (Buffer fileBuffer)) of
               Inr d \<Rightarrow> Inr (Some d)
             | Inl bufferError \<Rightarrow>
                 (case readCharacterData E fs imgFile (ustr ''png'') of
                    Inr r \<Rightarrow> Inr r
                  | Inl fileError \<Rightarrow> Inl (Error (ustr ''Failed to read character file''))))
        (\<lambda>imgData. case imgData of
            None \<Rightarrow> Inl (Error (ustr ''Failed to read character file''))
          | Some imgText \<Rightarrow>
              thenE (JSON_parse E imgText) (\<lambda>jsonObject.
              thenE (setProp jsonObject (ustr ''avatar'') (JStr item)) (\<lambda>c1.
              thenE (setProp c1 (ustr ''json_data'') (JStr imgText)) (\<lambda>c2.
              thenE (statSync fs (path_join (PUBLIC_CHARACTERS_DIR E) item)) (\<lambda>charStat.
              thenE (setProp c2 (ustr ''date_added'') (JNum (ctimeMs E imgFile))) (\<lambda>c3.
              thenE (getProp c3 (ustr ''create_date'')) (\<lambda>create_date.
              thenE (setProp c3 (ustr ''create_date'')
                       (orElse create_date (JStr (humanizedISO8601DateTime E (Some (ctimeMs E imgFile))))))
                (\<lambda>c4.
              thenE (getProp c4 (ustr ''uploader'')) (\<lambda>uploader.
              thenE (setProp c4 (ustr ''uploader'') (orElse uploader (JStr (ustr ''Unknown'')))) (\<lambda>c5.
              thenE (getProp c5 (ustr ''uploader_handle'')) (\<lambda>uploader_handle.
              thenE (setProp c5 (ustr ''uploader_handle'') (orElse uploader_handle (JStr (ustr ''unknown''))))
                (\<lambda>c6.
              thenE (getProp c6 (ustr ''description'')) (\<lambda>description.
              thenE (setProp c6 (ustr ''description'') (orElse description (JStr []))) (\<lambda>c7.
              thenE (getProp c7 (ustr ''tags'')) (\<lambda>tags.
              setProp c7 (ustr ''tags'') (orElse tags (JArr [] []))))))))))))))))))"

definition processCharacter :: "env \<Rightarrow> fsys \<Rightarrow> ustring \<Rightarrow> jsval" where
  "processCharacter E fs item =
     (case processCharacter_try E fs item of
        Inr character \<Rightarrow> character
      | Inl err \<Rightarrow>
          JObj [(ustr ''date_added'', JNum 0),
                (ustr ''name'', JStr (replaceFirst (ustr ''.png'') [] item)),
                (ustr ''uploader'', JStr (ustr ''Unknown'')),
                (ustr ''uploader_handle'', JStr (ustr ''unknown''))])"

datatype response = Response (status: nat) (body: jsval)

fun filterNamed :: "jsval list \<Rightarrow> exn + jsval list" where
  \<comment> \<open>\<^verbatim>\<open>.filter(c => c.name)\<close>\<close>
  "filterNamed [] = Inr []"
| "filterNamed (c # cs) =
     thenE (getProp c (ustr ''name'')) (\<lambda>n.
     thenE (filterNamed cs) (\<lambda>rest. Inr (if truthyOpt n then c # rest else rest)))"

definition listAll :: "env \<Rightarrow> fsys \<Rightarrow> response" where
  \<comment> \<open>\<^verbatim>\<open>router.post('/all')\<close>\<close>
  "listAll E fs =
     (let dirFiles = readdirSync fs (PUBLIC_CHARACTERS_DIR E);
          pngFiles = filter (\<lambda>file. endsWith file (ustr ''.png'')) dirFiles
      in case filterNamed (map (processCharacter E fs) pngFiles) of
           Inr data \<Rightarrow> Response 200 (JArr data [])
         | Inl err \<Rightarrow> Response 500 (JObj [(ustr ''error'', JBool True)]))"

subsection \<open>The import drivers\<close>

definition unsetPrivateFields :: "jsval \<Rightarrow> exn + jsval" where
  "unsetPrivateFields cardData =
     thenE (deleteProp cardData (ustr ''user_notes'')) (\<lambda>c1.
     thenE (deleteProp c1 (ustr ''user_notes_private'')) (\<lambda>c2.
     thenE (deleteProp c2 (ustr ''user_notes_public'')) (\<lambda>c3.
     thenE (deleteProp c3 (ustr ''user_notes_private_visible'')) (\<lambda>c4.
     deleteProp c4 (ustr ''user_notes_public_visible'')))))"

definition readFromV2 :: "jsval \<Rightarrow> jsval" where
  "readFromV2 cardData = cardData"

definition stamp :: "env \<Rightarrow> jsval \<Rightarrow> ustring \<Rightarrow> ustring \<Rightarrow> exn + jsval" where
  \<comment> \<open>the three assignments \<^verbatim>\<open>jsonData['create_date'] = humanizedISO8601DateTime()\<close>,
      \<^verbatim>\<open>jsonData['uploader'] = uploaderName\<close>, \<^verbatim>\<open>jsonData['uploader_handle'] = uploaderHandle\<close>\<close>
  "stamp E jsonData uploaderName uploaderHandle =
     thenE (setProp jsonData (ustr ''create_date'') (JStr (humanizedISO8601DateTime E None))) (\<lambda>j1.
     thenE (setProp j1 (ustr ''uploader'') (JStr uploaderName)) (\<lambda>j2.
     setProp j2 (ustr ''uploader_handle'') (JStr uploaderHandle)))"

definition pngNameFor :: "ustring option \<Rightarrow> exn + ustring \<Rightarrow> exn + ustring" where
  \<comment> \<open>\<^verbatim>\<open>preservedFileName || getPngName(...)\<close>: the right operand runs only when the left is
      \<^verbatim>\<open>undefined\<close> or empty\<close>
  "pngNameFor preservedFileName derived =
     (case preservedFileName of
        None \<Rightarrow> derived
      | Some n \<Rightarrow> if n \<noteq> [] then Inr n else derived)"

definition dataNameOrName :: "jsval \<Rightarrow> exn + jsval option" where
  \<comment> \<open>\<^verbatim>\<open>jsonData.data?.name || jsonData.name\<close>\<close>
  "dataNameOrName jsonData =
     thenE (optionalName jsonData) (\<lambda>dn.
       if truthyOpt dn then Inr dn else getProp jsonData (ustr ''name''))"

definition yamlRecord ::
  "env \<Rightarrow> ustring \<Rightarrow> ustring \<Rightarrow> ustring \<Rightarrow> ustring option \<Rightarrow> exn + ustring \<times> jsval" where
  \<comment> \<open>\<^verbatim>\<open>importFromYaml\<close> from \<^verbatim>\<open>yaml.parse(fileText)\<close> to the object \<^verbatim>\<open>char\<close>: the file name
      and the record, or the error thrown\<close>
  "yamlRecord E fileText uploaderHandle uploaderName preservedFileName =
     thenE (yaml_parse E fileText) (\<lambda>yamlData.
     thenE (getProp yamlData (ustr ''name'')) (\<lambda>nm.
     thenE (sanitizeValue nm) (\<lambda>yamlName.
     thenE (setProp yamlData (ustr ''name'') (JStr yamlName)) (\<lambda>yamlData1.
     thenE (pngNameFor preservedFileName (Inr (getPngName yamlName))) (\<lambda>fileName.
     thenE (getProp yamlData1 (ustr ''context'')) (\<lambda>context.
     thenE (getProp yamlData1 (ustr ''greeting'')) (\<lambda>greeting.
     thenE (getProp yamlData1 (ustr ''tags'')) (\<lambda>tags.
       Inr (fileName,
         JObj [(ustr ''name'', JStr yamlName),
               (ustr ''description'', nullish context (JStr [])),
               (ustr ''first_mes'', nullish greeting (JStr [])),
               (ustr ''create_date'', JStr (humanizedISO8601DateTime E None)),
               (ustr ''chat'', JStr (yamlName @ ustr '' - '' @ humanizedISO8601DateTime E None)),
               (ustr ''personality'', JStr []),
               (ustr ''creatorcomment'', JStr []),
               (ustr ''avatar'', JStr (ustr ''none'')),
               (ustr ''mes_example'', JStr []),
               (ustr ''scenario'', JStr []),
               (ustr ''talkativeness'', JNum 0.5),
               (ustr ''creator'', JStr []),
               (ustr ''tags'', orElse tags (JArr [] [])),
               (ustr ''uploader'', JStr uploaderName),
               (ustr ''uploader_handle'', JStr uploaderHandle)])))))))))"

definition importFromYaml ::
  "env \<Rightarrow> fsys \<Rightarrow> ustring \<Rightarrow> ustring \<Rightarrow> ustring \<Rightarrow> ustring option \<Rightarrow> (exn + ustring) \<times> fsys" where
  "importFromYaml E fs uploadPath uploaderHandle uploaderName preservedFileName =
     (case readFileSync fs uploadPath of
        Inl e \<Rightarrow> (Inl e, fs)
      | Inr fileBytes \<Rightarrow>
          (case unlinkSync fs uploadPath of
             (Inl e, fs1) \<Rightarrow> (Inl e, fs1)
           | (Inr u, fs1) \<Rightarrow>
               (case yamlRecord E (toString_utf8 E fileBytes) uploaderHandle uploaderName
                       preservedFileName of
                  Inl e \<Rightarrow> (Inl e, fs1)
                | Inr (fileName, char) \<Rightarrow>
                    (case writeCharacterData E fs1 (FilePath (DEFAULT_AVATAR_PATH E))
                            (JSON_stringify E char) fileName None of
                       (result, fs2) \<Rightarrow> (Inr (if result then fileName else []), fs2)))))"

definition jsonRecord ::
  "env \<Rightarrow> ustring \<Rightarrow> ustring \<Rightarrow> ustring \<Rightarrow> ustring option \<Rightarrow> exn + (ustring \<times> jsval) option" where
  \<comment> \<open>\<^verbatim>\<open>importFromJson\<close> from \<^verbatim>\<open>JSON.parse(data)\<close> to the object that is serialized: the file
      name and the record, \<open>None\<close> when neither branch applies, or the error thrown\<close>
  "jsonRecord E fileText uploaderHandle uploaderName preservedFileName =
     thenE (JSON_parse E fileText) (\<lambda>jsonData.
     thenE (getProp jsonData (ustr ''spec'')) (\<lambda>spec.
       if spec \<noteq> None then
         thenE (unsetPrivateFields jsonData) (\<lambda>j1.
         thenE (stamp E (readFromV2 j1) uploaderName uploaderHandle) (\<lambda>j2.
         thenE (pngNameFor preservedFileName
                  (thenE (dataNameOrName j2) getPngNameValue)) (\<lambda>pngName.
           Inr (Some (pngName, j2)))))
       else
         thenE (getProp jsonData (ustr ''name'')) (\<lambda>nm.
           if nm \<noteq> None then
             thenE (stamp E jsonData uploaderName uploaderHandle) (\<lambda>j1.
             thenE (pngNameFor preservedFileName
                      (thenE (getProp j1 (ustr ''name'')) getPngNameValue)) (\<lambda>pngName.
               Inr (Some (pngName, j1))))
           else Inr None)))"

definition importFromJson ::
  "env \<Rightarrow> fsys \<Rightarrow> ustring \<Rightarrow> ustring \<Rightarrow> ustring \<Rightarrow> ustring option \<Rightarrow> (exn + ustring) \<times> fsys" where
  "importFromJson E fs uploadPath uploaderHandle uploaderName preservedFileName =
     (case readFileSync fs uploadPath of
        Inl e \<Rightarrow> (Inl e, fs)
      | Inr fileBytes \<Rightarrow>
          (case unlinkSync fs uploadPath of
             (Inl e, fs1) \<Rightarrow> (Inl e, fs1)
           | (Inr u, fs1) \<Rightarrow>
               (case jsonRecord E (toString_utf8 E fileBytes) uploaderHandle uploaderName
                       preservedFileName of
                  Inl e \<Rightarrow> (Inl e, fs1)
                | Inr None \<Rightarrow> (Inr [], fs1)
                | Inr (Some (pngName, jsonData)) \<Rightarrow>
                    (case writeCharacterData E fs1 (FilePath (DEFAULT_AVATAR_PATH E))
                            (JSON_stringify E jsonData) pngName None of
                       (result, fs2) \<Rightarrow> (Inr (if result then pngName else []), fs2)))))"

definition pngStructureError :: "bytes \<Rightarrow> exn" where
  \<comment> \<open>the innermost \<^verbatim>\<open>try\<close> block of \<^verbatim>\<open>importFromPng\<close>, which always throws: the error it throws\<close>
  "pngStructureError fileBuffer =
     (case extractChunks fileBuffer of
        Inl e \<Rightarrow> e
      | Inr chunks \<Rightarrow>
          (let textChunks = filter (\<lambda>chunk. chunk_name chunk = tEXt) chunks in
           if length textChunks = 0 then
             Error (ustr ''PNG file does not contain any text chunks (not a character card)'')
           else if \<not> list_ex (\<lambda>chunk. case PNGtext_decode (chunk_data chunk) of
                                           Inl e \<Rightarrow> False
                                         | Inr (keyword, text) \<Rightarrow> isCharaKeyword keyword) textChunks then
             Error (ustr ''PNG file does not contain character card data (chara or ccv3 chunks)'')
           else Error (ustr ''PNG file structure is valid but data extraction failed'')))"

definition pngRecord ::
  "env \<Rightarrow> ustring \<Rightarrow> ustring \<Rightarrow> ustring \<Rightarrow> ustring option \<Rightarrow> exn + ustring \<times> jsval" where
  \<comment> \<open>\<^verbatim>\<open>importFromPng\<close> from \<^verbatim>\<open>JSON.parse(imgData)\<close> to the object that is serialized: the file
      name and the record, or the error thrown\<close>
  "pngRecord E imgData uploaderHandle uploaderName preservedFileName =
     (case JSON_parse E imgData of
        Inl parseError \<Rightarrow> Inl (Error (ustr ''Invalid JSON data in PNG file''))
      | Inr jsonData \<Rightarrow>
          thenE (getProp jsonData (ustr ''name'')) (\<lambda>nm.
          thenE (if truthyOpt nm then Inr False
                 else thenE (optionalName jsonData) (\<lambda>dn. Inr (\<not> truthyOpt dn))) (\<lambda>nameMissing.
            if nameMissing then Inl (Error (ustr ''Character name not found in PNG file''))
            else
              thenE (dataNameOrName jsonData) (\<lambda>originalName.
              thenE (sanitizeValue originalName) (\<lambda>sanitizedName.
              thenE (setProp jsonData (ustr ''name'') (JStr sanitizedName)) (\<lambda>j1.
              thenE (pngNameFor preservedFileName
                       (thenE (getProp j1 (ustr ''name'')) getPngNameValue)) (\<lambda>pngName.
              thenE (getProp j1 (ustr ''spec'')) (\<lambda>spec.
                if spec \<noteq> None then
                  thenE (unsetPrivateFields j1) (\<lambda>j2.
                  thenE (stamp E (readFromV2 j2) uploaderName uploaderHandle) (\<lambda>j3.
                    Inr (pngName, j3)))
                else
                  thenE (getProp j1 (ustr ''name'')) (\<lambda>nm1.
                    if nm1 \<noteq> None then
                      thenE (stamp E j1 uploaderName uploaderHandle) (\<lambda>j2.
                        Inr (pngName, j2))
                    else Inl (Error (ustr ''Unsupported character card format'')))))))))))"

definition importFromPng_try ::
  "env \<Rightarrow> fsys \<Rightarrow> ustring \<Rightarrow> ustring \<Rightarrow> ustring \<Rightarrow> ustring option \<Rightarrow> (exn + ustring) \<times> fsys" where
  \<comment> \<open>the body of the outer \<^verbatim>\<open>try\<close> of \<^verbatim>\<open>importFromPng\<close>\<close>
  "importFromPng_try E fs uploadPath uploaderHandle uploaderName preservedFileName =
     (case readFileSync fs uploadPath of
        Inl e \<Rightarrow> (Inl e, fs)
      | Inr fileBuffer \<Rightarrow>
          if take 8 fileBuffer \<noteq> validPngHeader then
            (Inl (Error (ustr ''Invalid PNG file header'')), fs)
          else
            (case (case parser_read E (files fs) (Buffer fileBuffer) of
                     Inr d \<Rightarrow> Inr (Some d)
                   | Inl readError \<Rightarrow>
                       (case readCharacterData E fs uploadPath (ustr ''png'') of
                          Inr r \<Rightarrow> Inr r
                        | Inl fileReadError \<Rightarrow>
                            Inl (Error (ustr ''PNG analysis failed: '' @
                                          message (pngStructureError fileBuffer))))) of
               Inl e \<Rightarrow> (Inl e, fs)
             | Inr None \<Rightarrow> (Inl (Error (ustr ''Failed to read character data from PNG'')), fs)
             | Inr (Some imgData) \<Rightarrow>
                 (case pngRecord E imgData uploaderHandle uploaderName preservedFileName of
                    Inl e \<Rightarrow> (Inl e, fs)
                  | Inr (pngName, jsonData) \<Rightarrow>
                      (case writeCharacterData E fs (FilePath uploadPath)
                              (JSON_stringify E jsonData) pngName None of
                         (result, fs1) \<Rightarrow>
                           (case unlinkSync fs1 uploadPath of
                              (Inl e, fs2) \<Rightarrow> (Inl e, fs2)
                            | (Inr u, fs2) \<Rightarrow> (Inr (if result then pngName else []), fs2))))))"

definition importFromPng ::
  "env \<Rightarrow> fsys \<Rightarrow> ustring \<Rightarrow> ustring \<Rightarrow> ustring \<Rightarrow> ustring option \<Rightarrow> (exn + ustring) \<times> fsys" where
  "importFromPng E fs uploadPath uploaderHandle uploaderName preservedFileName =
     (case importFromPng_try E fs uploadPath uploaderHandle uploaderName preservedFileName of
        (Inr fileName, fs1) \<Rightarrow> (Inr fileName, fs1)
      | (Inl error, fs1) \<Rightarrow>
          if existsSync fs1 uploadPath then
            (case unlinkSync fs1 uploadPath of
               (Inl e, fs2) \<Rightarrow> (Inl e, fs2)
             | (Inr u, fs2) \<Rightarrow> (Inl error, fs2))
          else (Inl error, fs1))"

subsection \<open>The upload route\<close>

text \<open>
  \<^verbatim>\<open>formatImportFunctions\<close> is an object literal, so \<^verbatim>\<open>formatImportFunctions[format]\<close> finds
  its four own properties and, for any other key, the members it inherits from
  \<^verbatim>\<open>Object.prototype\<close>. The route calls whatever it finds with the upload path as first
  argument and no receiver: \<^verbatim>\<open>Object\<close> returns a String object of the path,
  \<^verbatim>\<open>Object.prototype.toString\<close> returns \<^verbatim>\<open>'[object Undefined]'\<close>,
  \<^verbatim>\<open>Object.prototype.isPrototypeOf\<close> returns \<^verbatim>\<open>false\<close> for a string argument, and the other
  members throw a TypeError (they convert the missing receiver to an object, and the value
  of \<^verbatim>\<open>__proto__\<close> is not a function).
\<close>

datatype importFunction = ImportFromYaml | ImportFromJson | ImportFromPng | Inherited ustring

definition objectPrototypeKeys :: "ustring list" where
  "objectPrototypeKeys =
     [ustr ''constructor'', ustr ''__defineGetter__'', ustr ''__defineSetter__'',
      ustr ''hasOwnProperty'', ustr ''__lookupGetter__'', ustr ''__lookupSetter__'',
      ustr ''isPrototypeOf'', ustr ''propertyIsEnumerable'', ustr ''toString'',
      ustr ''valueOf'', ustr ''__proto__'', ustr ''toLocaleString'']"

definition formatImportFunctions :: "ustring \<Rightarrow> importFunction option" where
  "formatImportFunctions format =
     (if format = ustr ''yaml'' then Some ImportFromYaml
      else if format = ustr ''yml'' then Some ImportFromYaml
      else if format = ustr ''json'' then Some ImportFromJson
      else if format = ustr ''png'' then Some ImportFromPng
      else if format \<in> set objectPrototypeKeys then Some (Inherited format)
      else None)"

definition callInherited :: "ustring \<Rightarrow> ustring \<Rightarrow> exn + jsval" where
  "callInherited member uploadPath =
     (if member = ustr ''constructor'' then Inr (JStr uploadPath)
      else if member = ustr ''toString'' then Inr (JStr (ustr ''[object Undefined]''))
      else if member = ustr ''isPrototypeOf'' then Inr (JBool False)
      else if member = ustr ''__proto__'' then Inl (TypeError (ustr ''importFunction is not a function''))
      else Inl (TypeError (ustr ''Cannot convert undefined or null to object'')))"

definition callImport ::
  "env \<Rightarrow> fsys \<Rightarrow> importFunction \<Rightarrow> ustring \<Rightarrow> ustring \<Rightarrow> ustring \<Rightarrow> ustring option \<Rightarrow>
     (exn + jsval) \<times> fsys" where
  "callImport E fs importFunction uploadPath uploaderHandle uploaderName preservedFileName =
     (case importFunction of
        Inherited member \<Rightarrow> (callInherited member uploadPath, fs)
      | _ \<Rightarrow>
          (case (case importFunction of
                   ImportFromYaml \<Rightarrow> importFromYaml E fs uploadPath uploaderHandle uploaderName preservedFileName
                 | ImportFromJson \<Rightarrow> importFromJson E fs uploadPath uploaderHandle uploaderName preservedFileName
                 | _ \<Rightarrow> importFromPng E fs uploadPath uploaderHandle uploaderName preservedFileName) of
             (Inl e, fs1) \<Rightarrow> (Inl e, fs1)
           | (Inr fileName, fs1) \<Rightarrow> (Inr (JStr fileName), fs1)))"

record request =
  req_body :: "(ustring \<times> ustring) list option"
  req_file :: "(ustring \<times> ustring) option"
  req_handle :: ustring
  req_name :: ustring
  req_admin :: bool

definition getPreservedName :: "env \<Rightarrow> (ustring \<times> ustring) list \<Rightarrow> ustring option" where
  "getPreservedName E reqBody =
     (case map_of reqBody (ustr ''preserved_name'') of
        None \<Rightarrow> None
      | Some n \<Rightarrow> if n \<noteq> [] then Some (path_parse_name E n) else None)"

definition errorBody :: "ustring \<Rightarrow> jsval" where
  "errorBody m = JObj [(ustr ''error'', JStr m)]"

definition upload :: "env \<Rightarrow> fsys \<Rightarrow> request \<Rightarrow> response \<times> fsys" where
  \<comment> \<open>\<^verbatim>\<open>router.post('/upload')\<close>\<close>
  "upload E fs request =
     (case (req_body request, req_file request) of
        (Some reqBody, Some (destination, filename)) \<Rightarrow>
          (let uploadPath = path_join destination filename;
               format = (case map_of reqBody (ustr ''file_type'') of
                           None \<Rightarrow> ustr ''undefined'' | Some f \<Rightarrow> f);
               preservedFileName = getPreservedName E reqBody;
               uploaderHandle = req_handle request;
               uploaderName = req_name request
           in case (case formatImportFunctions format of
                      None \<Rightarrow> (Inl (Error (ustr ''Unsupported format: '' @ format)), fs)
                    | Some importFunction \<Rightarrow>
                        callImport E fs importFunction uploadPath uploaderHandle uploaderName
                          preservedFileName) of
                (Inr fileName, fs1) \<Rightarrow>
                  if \<not> truthy fileName then
                    (Response 400 (errorBody (ustr ''Failed to import character'')), fs1)
                  else (Response 200 (JObj [(ustr ''file_name'', fileName)]), fs1)
              | (Inl err, fs1) \<Rightarrow>
                  (let fs2 = (if existsSync fs1 uploadPath then snd (unlinkSync fs1 uploadPath) else fs1)
                   in (Response 400
                         (errorBody (if message err \<noteq> [] then message err else ustr ''Upload failed'')),
                       fs2)))
      | _ \<Rightarrow> (Response 400 (JStr (ustr ''Bad Request'')), fs))"

subsection \<open>The delete route\<close>

definition deleteCharacter :: "env \<Rightarrow> fsys \<Rightarrow> request \<Rightarrow> response \<times> fsys" where
  \<comment> \<open>the handler of \<^verbatim>\<open>router.post('/delete')\<close>, after its middleware\<close>
  "deleteCharacter E fs request =
     (case req_body request of
        None \<Rightarrow> (Response 500 (errorBody (ustr ''Failed to delete character'')), fs)
      | Some reqBody \<Rightarrow>
          (case map_of reqBody (ustr ''character_name'') of
             None \<Rightarrow> (Response 400 (errorBody (ustr ''Character name is required'')), fs)
           | Some character_name \<Rightarrow>
               if character_name = [] then
                 (Response 400 (errorBody (ustr ''Character name is required'')), fs)
               else
                 (let characterPath =
                        path_join (PUBLIC_CHARACTERS_DIR E) (character_name @ ustr ''.png'')
                  in if \<not> existsSync fs characterPath then
                       (Response 404 (errorBody (ustr ''Character not found'')), fs)
                     else
                       (let characterInfo = processCharacter E fs (character_name @ ustr ''.png'');
                            currentUser = req_handle request;
                            isAdmin = req_admin request
                        in case getProp characterInfo (ustr ''uploader_handle'') of
                             Inl e \<Rightarrow> (Response 500 (errorBody (ustr ''Failed to delete character'')), fs)
                           | Inr recorded \<Rightarrow>
                               (let isUploader = (recorded = Some (JStr currentUser)) in
                                if \<not> isAdmin \<and> \<not> isUploader then
                                  (Response 403
                                     (errorBody (ustr ''Permission denied. Only admins or the character uploader can delete this character.'')),
                                   fs)
                                else
                                  (case unlinkSync fs characterPath of
                                     (Inl e, fs1) \<Rightarrow>
                                       (Response 500 (errorBody (ustr ''Failed to delete character'')), fs1)
                                   | (Inr u, fs1) \<Rightarrow>
                                       (Response 200 (JObj [(ustr ''success'', JBool True)]), fs1)))))))"

section \<open>The container codec\<close>

text \<open>
  \<^verbatim>\<open>read\<close> and \<^verbatim>\<open>write\<close> of \<^verbatim>\<open>character-card-parser.js\<close> are not under the repository's
  sources. The codec below follows the words of the specification (section 4.1, Container
  Codec) over the chunk libraries above; payloads are byte sequences.
\<close>

definition b64char :: "nat \<Rightarrow> byte" where
  \<comment> \<open>Modelled from the spec: the base64 alphabet of the embedded payload, from index to character.\<close>
  "b64char i =
     (if i < 26 then of_nat (65 + i)
      else if i < 52 then of_nat (71 + i)
      else if i < 62 then of_nat (i - 4)
      else if i = 62 then 43 else 47)"

definition b64index :: "byte \<Rightarrow> nat option" where
  \<comment> \<open>Modelled from the spec: the base64 alphabet, from character to index; the padding
      character and every other byte have none.\<close>
  "b64index c =
     (let n = unat c in
        if 65 \<le> n \<and> n \<le> 90 then Some (n - 65)
        else if 97 \<le> n \<and> n \<le> 122 then Some (n - 71)
        else if 48 \<le> n \<and> n \<le> 57 then Some (n + 4)
        else if n = 43 then Some 62
        else if n = 47 then Some 63
        else None)"

fun base64_encode :: "bytes \<Rightarrow> bytes" where
  \<comment> \<open>Modelled from the spec: the payload as a base64 string, three bytes to four characters,
      padded with \<^verbatim>\<open>=\<close>.\<close>
  "base64_encode [] = []"
| "base64_encode [a] =
     [b64char (unat a div 4), b64char (unat a mod 4 * 16), 61, 61]"
| "base64_encode [a, b] =
     [b64char (unat a div 4), b64char (unat a mod 4 * 16 + unat b div 16),
      b64char (unat b mod 16 * 4), 61]"
| "base64_encode (a # b # c # rest) =
     [b64char (unat a div 4), b64char (unat a mod 4 * 16 + unat b div 16),
      b64char (unat b mod 16 * 4 + unat c div 64), b64char (unat c mod 64)] @ base64_encode rest"

fun base64_decode :: "bytes \<Rightarrow> bytes" where
  \<comment> \<open>Modelled from the spec: the bytes of a base64 string, four characters to three bytes,
      up to the padding or the first character outside the alphabet.\<close>
  "base64_decode (w # x # y # z # rest) =
     (case (b64index w, b64index x) of
        (Some i, Some j) \<Rightarrow>
          (case b64index y of
             None \<Rightarrow> [of_nat (i * 4 + j div 16)]
           | Some k \<Rightarrow>
               (case b64index z of
                  None \<Rightarrow> [of_nat (i * 4 + j div 16), of_nat (j mod 16 * 16 + k div 4)]
                | Some l \<Rightarrow>
                    [of_nat (i * 4 + j div 16), of_nat (j mod 16 * 16 + k div 4),
                     of_nat (k mod 4 * 64 + l)] @ base64_decode rest))
      | _ \<Rightarrow> [])"
| "base64_decode _ = []"

datatype codecError = MalformedContainer | NotACharacterCard

definition segmentKeyword :: "chunk \<Rightarrow> bytes" where
  \<comment> \<open>Modelled from the spec: the keyword of a text segment, the bytes before its first NUL.\<close>
  "segmentKeyword c = takeWhile (\<lambda>b. b \<noteq> 0) (chunk_data c)"

definition segmentText :: "chunk \<Rightarrow> bytes" where
  \<comment> \<open>Modelled from the spec: the value of a text segment, the bytes after the keyword and
      its NUL.\<close>
  "segmentText c = drop (length (segmentKeyword c) + 1) (chunk_data c)"

definition isCardSegment :: "chunk \<Rightarrow> bool" where
  \<comment> \<open>Modelled from the spec: "a text segment whose keyword is chara or ccv3
      (case-insensitive)".\<close>
  "isCardSegment c \<longleftrightarrow> chunk_name c = tEXt \<and> isCharaKeyword (segmentKeyword c)"

definition decode :: "bytes \<Rightarrow> codecError + bytes" where
  \<comment> \<open>Modelled from the spec: \<^verbatim>\<open>decode(imageBytes)\<close> "scans the container's chunk stream for a
      text segment whose keyword is chara or ccv3; returns the first match's decoded value.
      Fails with NotACharacterCard if no such segment exists, or MalformedContainer if the byte
      stream does not begin with the container's required signature". A chunk stream that
      cannot be read is malformed as well.\<close>
  "decode imageBytes =
     (if take 8 imageBytes \<noteq> validPngHeader then Inl MalformedContainer
      else
        (case extractChunks imageBytes of
           Inl e \<Rightarrow> Inl MalformedContainer
         | Inr chunks \<Rightarrow>
             (case filter isCardSegment chunks of
                [] \<Rightarrow> Inl NotACharacterCard
              | c # cs \<Rightarrow> Inr (base64_decode (segmentText c)))))"

definition encode :: "bytes \<Rightarrow> bytes \<Rightarrow> codecError + bytes" where
  \<comment> \<open>Modelled from the spec: \<^verbatim>\<open>encode(imageBytes, jsonPayload)\<close> "strips any pre-existing
      chara/ccv3 text segments, inserts a new one immediately before the terminal marker
      segment, and returns a byte-valid container". The new segment has the keyword
      \<^verbatim>\<open>chara\<close> and the payload in base64.\<close>
  "encode imageBytes jsonPayload =
     (case extractChunks imageBytes of
        Inl e \<Rightarrow> Inl MalformedContainer
      | Inr chunks \<Rightarrow>
          (let kept = filter (\<lambda>c. \<not> isCardSegment c) chunks
           in Inr (encodeChunks
                     (butlast kept @ [PNGtext_encode (bstr ''chara'') (base64_encode jsonPayload)] @
                      [last kept]))))"

section \<open>Notions used to state the properties\<close>

fun utf8Length :: "ustring \<Rightarrow> nat" where
  \<comment> \<open>the number of bytes of the UTF-8 encoding, as \<^verbatim>\<open>truncate-utf8-bytes\<close> counts it\<close>
  "utf8Length [] = 0"
| "utf8Length [c] = unitByteLength c"
| "utf8Length (c # d # s) =
     (if isHighSurrogate c \<and> isLowSurrogate d then 4 + utf8Length s
      else unitByteLength c + utf8Length (d # s))"

definition isPathSeparator :: "unit16 \<Rightarrow> bool" where
  "isPathSeparator c \<longleftrightarrow> c = 0x2F \<or> c = 0x5C"

definition isControl :: "unit16 \<Rightarrow> bool" where
  \<comment> \<open>the Unicode control characters: U+0000..U+001F and U+007F..U+009F\<close>
  "isControl c \<longleftrightarrow> c \<le> 0x1F \<or> (0x7F \<le> c \<and> c \<le> 0x9F)"

definition clean :: "unit16 \<Rightarrow> bool" where
  \<comment> \<open>a code unit that \<^verbatim>\<open>getPngName\<close> can produce\<close>
  "clean c \<longleftrightarrow> keptRe c \<or> c = 0x5F"

definition latin1LetterOrDigit :: "unit16 \<Rightarrow> bool" where
  \<comment> \<open>the specification's "Unicode letter or digit", for the code units below U+0100:
      the decimal digits and the letters of Basic Latin and Latin-1 Supplement\<close>
  "latin1LetterOrDigit c \<longleftrightarrow>
     (0x30 \<le> c \<and> c \<le> 0x39) \<or> (0x41 \<le> c \<and> c \<le> 0x5A) \<or> (0x61 \<le> c \<and> c \<le> 0x7A) \<or>
     c = 0xAA \<or> c = 0xB5 \<or> c = 0xBA \<or>
     (0xC0 \<le> c \<and> c \<le> 0xD6) \<or> (0xD8 \<le> c \<and> c \<le> 0xF6) \<or> (0xF8 \<le> c \<and> c \<le> 0xFF)"

definition storedArtifact :: "env \<Rightarrow> fsys \<Rightarrow> ustring \<Rightarrow> bytes option" where
  \<comment> \<open>the bytes on disk of the public character with the given file name\<close>
  "storedArtifact E fs fileName =
     map_of (files fs) (path_join (PUBLIC_CHARACTERS_DIR E) (fileName @ ustr ''.png''))"

definition persists :: "env \<Rightarrow> fsys \<Rightarrow> ustring \<Rightarrow> jsval \<Rightarrow> bool" where
  \<comment> \<open>the stored artifact is what \<^verbatim>\<open>write\<close> made of some image and the serialized record\<close>
  "persists E fs fileName crec \<longleftrightarrow>
     (\<exists>img out. storedArtifact E fs fileName = Some out \<and>
        parser_write E img (JSON_stringify E crec) = Inr out)"




definition stamped :: "env \<Rightarrow> ustring \<Rightarrow> ustring \<Rightarrow> jsval \<Rightarrow> bool" where
  \<comment> \<open>the record carries the caller's identity and the server's time stamp\<close>
  "stamped E uploaderName uploaderHandle crec \<longleftrightarrow>
     getProp crec (ustr ''uploader'') = Inr (Some (JStr uploaderName)) \<and>
     getProp crec (ustr ''uploader_handle'') = Inr (Some (JStr uploaderHandle)) \<and>
     getProp crec (ustr ''create_date'') = Inr (Some (JStr (humanizedISO8601DateTime E None)))"

definition payloadText :: "env \<Rightarrow> fsys \<Rightarrow> importFunction \<Rightarrow> ustring \<Rightarrow> ustring option" where
  \<comment> \<open>the text that the JSON or PNG driver hands to \<^verbatim>\<open>JSON.parse\<close>: the uploaded file's text,
      or what \<^verbatim>\<open>read\<close> extracts from the uploaded image (from the buffer, else by path)\<close>
  "payloadText E fs importFunction uploadPath =
     (case readFileSync fs uploadPath of
        Inl e \<Rightarrow> None
      | Inr fileBytes \<Rightarrow>
          (case importFunction of
             ImportFromPng \<Rightarrow>
               (case parser_read E (files fs) (Buffer fileBytes) of
                  Inr d \<Rightarrow> Some d
                | Inl readError \<Rightarrow>
                    (case readCharacterData E fs uploadPath (ustr ''png'') of
                       Inr r \<Rightarrow> r
                     | Inl e \<Rightarrow> None))
           | _ \<Rightarrow> Some (toString_utf8 E fileBytes)))"




section \<open>A sample environment\<close>

text \<open>
  A small environment on which the model is evaluated: image decoding always fails, the
  card parser recognises only its own output, and the JSON and YAML parsers know a few
  documents.
\<close>

definition sampleParse :: "ustring \<Rightarrow> exn + jsval" where
  \<open>sampleParse s =
     (if s = ustr ''{"name":"Aria"}'' then Inr (JObj [(ustr ''name'', JStr (ustr ''Aria''))])
      else if s = ustr ''{"spec":"chara_card_v2","name":"Aria","user_notes":"secret","uploader":"mallory"}'' then
        Inr (JObj [(ustr ''spec'', JStr (ustr ''chara_card_v2'')),
                   (ustr ''name'', JStr (ustr ''Aria'')),
                   (ustr ''user_notes'', JStr (ustr ''secret'')),
                   (ustr ''uploader'', JStr (ustr ''mallory''))])
      else if s = ustr ''name: Aria'' then Inr (JObj [(ustr ''name'', JStr (ustr ''Aria''))])
      else Inl (SyntaxError (ustr ''Unexpected token'')))\<close>

definition sampleStringify :: "jsval \<Rightarrow> ustring" where
  \<comment> \<open>the keys of an object, each followed by a semicolon\<close>
  "sampleStringify v = (case v of JObj ps \<Rightarrow> concat (map (\<lambda>(k, x). k @ ustr '';'') ps) | _ \<Rightarrow> ustr ''null'')"

definition sampleEnv :: env where
  "sampleEnv =
     \<lparr> parser_read = (\<lambda>fs inp. case inp of
          Buffer b \<Rightarrow> if take 5 b = bstr ''CARD:'' then Inr (map ucast (drop 5 b))
                      else Inl (Error (ustr ''No PNG metadata.''))
        | FilePath p \<Rightarrow> Inl (Error (ustr ''Invalid .png file header''))),
       parser_write = (\<lambda>img d. Inr (bstr ''CARD:'' @ map ucast d)),
       JSON_parse = sampleParse,
       JSON_stringify = sampleStringify,
       yaml_parse = sampleParse,
       toString_utf8 = map ucast,
       path_parse_name = (\<lambda>p. p),
       Jimp_read = (\<lambda>fs inp. Inl (Error (ustr ''Could not find MIME for Buffer''))),
       image_crop = (\<lambda>img x y w h. Inr img),
       image_resize = (\<lambda>img w h. Inr img),
       image_getBuffer = (\<lambda>img. case img of Bitmap w h px \<Rightarrow> Inr px),
       humanizedISO8601DateTime = (\<lambda>t. ustr ''2024-1-15 @14h 30m 45s 123ms''),
       ctimeMs = (\<lambda>p. 0),
       AVATAR_WIDTH = 512,
       AVATAR_HEIGHT = 768,
       DEFAULT_AVATAR_PATH = ustr ''public/img/ai4.png'',
       PUBLIC_CHARACTERS_DIR = ustr ''data/public_characters'' \<rparr>"

definition sampleAvatar :: bytes where
  "sampleAvatar = validPngHeader"

definition sampleFs :: "bytes \<Rightarrow> fsys" where
  \<comment> \<open>an upload with the given content, and the default avatar\<close>
  "sampleFs content =
     \<lparr> files = [(ustr ''uploads/tmp1'', content), (ustr ''public/img/ai4.png'', sampleAvatar)],
       unlinks = [] \<rparr>"




definition isObject :: "jsval \<Rightarrow> bool" where
  \<comment> \<open>an object or an array: a value whose properties can be read and written\<close>
  "isObject v \<longleftrightarrow> (case v of JObj ps \<Rightarrow> True | JArr xs ps \<Rightarrow> True | _ \<Rightarrow> False)"

definition named :: "jsval \<Rightarrow> bool" where
  \<comment> \<open>the test \<^verbatim>\<open>c => c.name\<close> of the listing\<close>
  "named c \<longleftrightarrow> (case getProp c (ustr ''name'') of Inr (Some v) \<Rightarrow> truthy v | _ \<Rightarrow> False)"

definition pngItems :: "env \<Rightarrow> fsys \<Rightarrow> ustring list" where
  \<comment> \<open>the directory entries that the listing processes\<close>
  "pngItems E fs =
     filter (\<lambda>file. endsWith file (ustr ''.png'')) (readdirSync fs (PUBLIC_CHARACTERS_DIR E))"

definition stub :: "ustring \<Rightarrow> jsval" where
  \<comment> \<open>the degraded entry for a file whose stem is given\<close>
  "stub stem =
     JObj [(ustr ''date_added'', JNum 0), (ustr ''name'', JStr stem),
           (ustr ''uploader'', JStr (ustr ''Unknown'')),
           (ustr ''uploader_handle'', JStr (ustr ''unknown''))]"

definition deleteRequest :: "ustring \<Rightarrow> ustring \<Rightarrow> bool \<Rightarrow> request" where
  \<comment> \<open>a delete request for a character name by a user with the given handle and role\<close>
  "deleteRequest character_name handle admin =
     \<lparr> req_body = Some [(ustr ''character_name'', character_name)], req_file = None,
       req_handle = handle, req_name = handle, req_admin = admin \<rparr>"

definition sampleStore :: fsys where
  \<comment> \<open>a public store with one artifact written by the sample parser and one that is not\<close>
  \<open>sampleStore =
     \<lparr> files = [(ustr ''data/public_characters/Aria.png'', bstr ''CARD:{"name":"Aria"}''),
                (ustr ''data/public_characters/Broken.png'', [0, 1, 2])],
       unlinks = [] \<rparr>\<close>

definition wfChunk :: "chunk \<Rightarrow> bool" where
  \<comment> \<open>a chunk before the end marker: a four-byte name other than \<^verbatim>\<open>IEND\<close>, a length of 32 bits\<close>
  "wfChunk c \<longleftrightarrow> length (chunk_name c) = 4 \<and> chunk_name c \<noteq> IEND \<and> length (chunk_data c) < 2 ^ 32"

definition sampleHeaderChunk :: chunk where
  \<comment> \<open>the header of a 1 by 1 greyscale image\<close>
  "sampleHeaderChunk = Chunk IHDR [0, 0, 0, 1, 0, 0, 0, 1, 8, 0, 0, 0, 0]"

definition noTextPng :: bytes where
  \<comment> \<open>a PNG file without any text chunk\<close>
  "noTextPng = encodeChunks ([sampleHeaderChunk] @ [Chunk IEND []])"

definition otherTextPng :: bytes where
  \<comment> \<open>a PNG file whose only text chunk has the keyword \<^verbatim>\<open>other\<close>\<close>
  "otherTextPng =
     encodeChunks ([sampleHeaderChunk, PNGtext_encode (bstr ''other'') (bstr ''hello'')] @ [Chunk IEND []])"

section \<open>Basic facts\<close>

lemma of_char_lt: "(of_char c :: nat) < 256"
  using of_char_mod_256 [of c, where ?'a = nat] by (metis mod_less_divisor zero_less_numeral)

lemma unat_of_char16: "unat (of_char c :: unit16) = of_char c"
proof -
  have "(of_char c :: unit16) = of_nat (of_char c)"
    by (simp add: of_nat_of_char)
  then have "unat (of_char c :: unit16) = (of_char c :: nat) mod 2 ^ 16"
    by (simp add: unat_of_nat)
  then show ?thesis using of_char_lt [of c] by simp
qed

lemma of_char16_eq_iff: "(of_char c :: unit16) = of_char d \<longleftrightarrow> c = d"
proof
  assume "(of_char c :: unit16) = of_char d"
  then have "unat (of_char c :: unit16) = unat (of_char d :: unit16)" by simp
  then show "c = d" by (simp add: unat_of_char16)
qed simp

lemma ustr_eq_iff: "ustr s = ustr t \<longleftrightarrow> s = t"
proof -
  have "inj (of_char :: char \<Rightarrow> unit16)"
    by (rule injI) (simp add: of_char16_eq_iff)
  then show ?thesis
    by (simp add: ustr_def inj_map_eq_map)
qed

lemma ustr_append: "ustr s @ ustr t = ustr (s @ t)"
  by (simp add: ustr_def)

lemma ustr_Nil_iff: "ustr s = [] \<longleftrightarrow> s = []"
  by (simp add: ustr_def)

lemma ustr_simps: "ustr [] = []" "ustr (c # s) = of_char c # ustr s"
  by (simp_all add: ustr_def)

lemma thenE_Inr_iff: "thenE r f = Inr y \<longleftrightarrow> (\<exists>x. r = Inr x \<and> f x = Inr y)"
  by (cases r) (simp_all add: thenE_def)

lemma thenE_simps [simp]: "thenE (Inl e) f = Inl e" "thenE (Inr x) f = f x"
  by (simp_all add: thenE_def)

section \<open>Properties of the file-name sanitization\<close>

lemma clean_filler: "clean (filler c)"
  by (simp add: clean_def filler_def)

lemma filler_clean: "clean c \<Longrightarrow> filler c = c"
  by (auto simp: clean_def filler_def)

lemma clean_not_illegal: "clean c \<Longrightarrow> \<not> illegalRe c"
  by (auto simp: clean_def keptRe_def illegalRe_def)

lemma clean_not_control: "clean c \<Longrightarrow> \<not> controlRe c"
  by (auto simp: clean_def keptRe_def controlRe_def word_le_nat_alt)

lemma clean_not_separator: "clean c \<Longrightarrow> \<not> isPathSeparator c"
  by (auto simp: clean_def keptRe_def isPathSeparator_def)

lemma clean_not_isControl: "clean c \<Longrightarrow> \<not> isControl c"
  by (auto simp: clean_def keptRe_def isControl_def word_le_nat_alt)

lemma clean_not_trailing: "clean c \<Longrightarrow> \<not> windowsTrailingRe c"
  by (auto simp: clean_def keptRe_def windowsTrailingRe_def)

lemma clean_not_dot: "clean c \<Longrightarrow> c \<noteq> 0x2E"
  by (auto simp: clean_def keptRe_def)

lemma clean_not_high: "clean c \<Longrightarrow> \<not> isHighSurrogate c"
  by (auto simp: clean_def keptRe_def isHighSurrogate_def word_le_nat_alt)

lemma unitByteLength_pos: "1 \<le> unitByteLength c"
  by (simp add: unitByteLength_def)

lemma unitByteLength_filler: "unitByteLength (filler c) \<le> unitByteLength c"
  by (simp add: filler_def unitByteLength_def)

lemma filler_surrogate: "isHighSurrogate c \<Longrightarrow> unitByteLength (filler c) = 1"
  "isLowSurrogate c \<Longrightarrow> unitByteLength (filler c) = 1"
  by (auto simp: filler_def keptRe_def isHighSurrogate_def isLowSurrogate_def unitByteLength_def word_le_nat_alt)

lemma utf8Length_Cons: "\<not> isHighSurrogate c \<Longrightarrow> utf8Length (c # s) = unitByteLength c + utf8Length s"
  by (cases s) simp_all

lemma utf8Length_clean: "list_all clean s \<Longrightarrow> utf8Length s = sum_list (map unitByteLength s)"
  by (induction s) (simp_all add: utf8Length_Cons clean_not_high)

lemma sum_filler_le: "sum_list (map unitByteLength (map filler s)) \<le> utf8Length s"
proof (induction s rule: utf8Length.induct)
  case 1
  show ?case by simp
next
  case (2 c)
  show ?case by (simp add: unitByteLength_filler)
next
  case (3 c d s)
  show ?case
  proof (cases "isHighSurrogate c \<and> isLowSurrogate d")
    case True
    with 3 show ?thesis by (simp add: filler_surrogate)
  next
    case False
    with 3 have "sum_list (map unitByteLength (map filler (d # s))) \<le> utf8Length (d # s)"
      by simp
    moreover have "unitByteLength (filler c) \<le> unitByteLength c"
      by (rule unitByteLength_filler)
    ultimately show ?thesis using False by auto
  qed
qed

lemma utf8Length_filler: "utf8Length (map filler s) \<le> utf8Length s"
proof -
  have "list_all clean (map filler s)"
    by (simp add: list_all_iff clean_filler)
  then show ?thesis
    using sum_filler_le [of s] by (simp add: utf8Length_clean)
qed

lemma truncate_from_prefix: "prefix (truncate_from L cur s) s"
  by (induction L cur s rule: truncate_from.induct) simp_all

lemma truncate_from_bound: "cur \<le> L \<Longrightarrow> cur + utf8Length (truncate_from L cur s) \<le> L"
proof (induction L cur s rule: truncate_from.induct)
  case (1 L cur)
  then show ?case by simp
next
  case (2 L cur c)
  then show ?case by simp
next
  case (3 L cur c d s)
  show ?case
  proof (cases "isHighSurrogate c \<and> isLowSurrogate d")
    case True
    with 3 show ?thesis by auto
  next
    case False
    consider "cur + unitByteLength c = L" | "cur + unitByteLength c > L" | "cur + unitByteLength c < L"
      by linarith
    then show ?thesis
    proof cases
      case 1
      with False show ?thesis by auto
    next
      case 2
      with False 3 show ?thesis by auto
    next
      case 3
      let ?t = "truncate_from L (cur + unitByteLength c) (d # s)"
      from 3 False "3.IH"(2) have ih: "cur + unitByteLength c + utf8Length ?t \<le> L"
        by auto
      have "prefix ?t (d # s)" by (rule truncate_from_prefix)
      then have "?t = [] \<or> (\<exists>t. ?t = d # t)"
        by (cases ?t) auto
      then have "utf8Length (c # ?t) = unitByteLength c + utf8Length ?t"
        using False by auto
      with ih 3 False show ?thesis by auto
    qed
  qed
qed

lemma utf8Length_0: "utf8Length s = 0 \<longleftrightarrow> s = []"
proof (induction s rule: utf8Length.induct)
  case (2 c)
  show ?case using unitByteLength_pos [of c] by simp
next
  case (3 c d s)
  show ?case using unitByteLength_pos [of c] by simp
qed simp

lemma truncate_from_id: "cur + utf8Length s \<le> L \<Longrightarrow> truncate_from L cur s = s"
proof (induction L cur s rule: truncate_from.induct)
  case (1 L cur)
  then show ?case by simp
next
  case (2 L cur c)
  then show ?case by simp
next
  case (3 L cur c d s)
  show ?case
  proof (cases "isHighSurrogate c \<and> isLowSurrogate d")
    case True
    with 3 show ?thesis by (auto simp: utf8Length_0)
  next
    case False
    have "1 \<le> utf8Length (d # s)"
      using utf8Length_0 [of "d # s"] by (simp del: utf8Length.simps)
    with 3 False show ?thesis by auto
  qed
qed


lemma getPngName_clean: "list_all clean (getPngName x)"
  by (simp add: getPngName_def list_all_iff clean_filler)

lemma sanitize_utf8Length: "utf8Length (sanitize x) \<le> 255"
  using truncate_from_bound [of 0 255] by (simp add: sanitize_def truncateBytes_def Let_def)

lemma getPngName_utf8Length: "utf8Length (getPngName x) \<le> 255"
  using utf8Length_filler [of "sanitize x"] sanitize_utf8Length [of x]
  by (simp add: getPngName_def)

lemma strip_clean: "list_all clean y \<Longrightarrow> rev (dropWhile windowsTrailingRe (rev y)) = y"
proof -
  assume c: "list_all clean y"
  have "dropWhile windowsTrailingRe (rev y) = rev y"
  proof (cases "rev y")
    case Nil
    then show ?thesis by simp
  next
    case (Cons a t)
    then have "a \<in> set y" by (metis list.set_intros(1) set_rev)
    with c have "\<not> windowsTrailingRe a"
      by (simp add: list_all_iff clean_not_trailing)
    with Cons show ?thesis by simp
  qed
  then show ?thesis by simp
qed

lemma clean_not_reservedRe: "list_all clean y \<Longrightarrow> \<not> reservedRe y"
  by (cases y) (auto simp: reservedRe_def clean_not_dot)

lemma sanitize_clean:
  assumes "list_all clean y" and "utf8Length y \<le> 255"
  shows "sanitize y = (if windowsReservedRe y then [] else y)"
proof -
  have 1: "filter (\<lambda>c. \<not> illegalRe c) y = y"
    using assms(1) by (simp add: list_all_iff clean_not_illegal)
  have 2: "filter (\<lambda>c. \<not> controlRe c) y = y"
    using assms(1) by (simp add: list_all_iff clean_not_control)
  have 3: "\<not> reservedRe y"
    using assms(1) by (rule clean_not_reservedRe)
  have 4: "truncate_from 255 0 y = y"
    using assms(2) by (simp add: truncate_from_id)
  show ?thesis
    by (simp add: sanitize_def 1 2 3 4 strip_clean [OF assms(1)] truncateBytes_def)
qed

lemma deviceName_nonempty: "deviceName b \<Longrightarrow> b \<noteq> []"
  by (cases b) (simp_all add: deviceName_def ustr_def)

lemma windowsReservedRe_nonempty: "windowsReservedRe s \<Longrightarrow> s \<noteq> []"
  by (auto simp: windowsReservedRe_def dest: deviceName_nonempty)

lemma getPngName_twice:
  "getPngName (getPngName x) = (if windowsReservedRe (getPngName x) then [] else getPngName x)"
proof -
  let ?y = "getPngName x"
  have c: "list_all clean ?y" by (rule getPngName_clean)
  have "sanitize ?y = (if windowsReservedRe ?y then [] else ?y)"
    using c getPngName_utf8Length by (rule sanitize_clean)
  moreover have "map filler ?y = ?y"
    using c by (simp add: list_all_iff filler_clean map_idI)
  ultimately show ?thesis
    by (simp add: getPngName_def [of ?y])
qed

lemma sanitize_subseq: "subseq (sanitize x) x"
proof -
  let ?s1 = "filter (\<lambda>c. \<not> illegalRe c) x"
  let ?s2 = "filter (\<lambda>c. \<not> controlRe c) ?s1"
  let ?s3 = "if reservedRe ?s2 then [] else ?s2"
  let ?s4 = "if windowsReservedRe ?s3 then [] else ?s3"
  let ?s5 = "rev (dropWhile windowsTrailingRe (rev ?s4))"
  have "subseq ?s2 x"
    using subseq_order.order_trans [OF subseq_filter_left subseq_filter_left] .
  then have "subseq ?s4 x" by simp
  moreover have "prefix ?s5 ?s4"
  proof -
    have "?s4 = ?s5 @ rev (takeWhile windowsTrailingRe (rev ?s4))"
      using takeWhile_dropWhile_id [of windowsTrailingRe "rev ?s4", THEN arg_cong, of rev]
      by (simp del: takeWhile_dropWhile_id)
    then show ?thesis by (rule prefixI)
  qed
  ultimately have "subseq ?s5 x"
    using prefix_imp_subseq subseq_order.order_trans by blast
  moreover have "prefix (truncateBytes ?s5 255) ?s5"
    by (simp add: truncateBytes_def truncate_from_prefix)
  ultimately have "subseq (truncateBytes ?s5 255) x"
    using prefix_imp_subseq subseq_order.order_trans by blast
  then show ?thesis by (simp add: sanitize_def Let_def)
qed

lemmas sanitize_defs =
  getPngName_def sanitize_def ustr_def illegalRe_def controlRe_def reservedRe_def
  windowsReservedRe_def deviceName_def deviceExt_def toLowerASCII_def isDigit_def
  windowsTrailingRe_def truncateBytes_def unitByteLength_def isHighSurrogate_def
  isLowSurrogate_def filler_def keptRe_def isLineTerminator_def

lemma getPngName_con_space: "getPngName (ustr ''con '') = ustr ''con''"
  by (simp add: sanitize_defs)

lemma getPngName_con: "getPngName (ustr ''con'') = []"
  by (simp add: sanitize_defs)

text \<open>
  C6 (as stated): sanitization is idempotent. It is not: the name \<^verbatim>\<open>"con "\<close> is
  sanitized to \<^verbatim>\<open>"con"\<close> (the trailing space is stripped after the check for Windows device
  names), and \<^verbatim>\<open>"con"\<close> is sanitized to the empty name.
\<close>

theorem C6_counterexample:
  "getPngName (getPngName (ustr ''con '')) \<noteq> getPngName (ustr ''con '')"
proof -
  have "getPngName (getPngName (ustr ''con '')) = []"
    by (simp only: getPngName_con_space getPngName_con)
  moreover have "ustr ''con'' \<noteq> []"
    by (simp add: ustr_def)
  ultimately show ?thesis by (simp only: getPngName_con_space)
qed

text \<open>
  C6 (amended): for every name, the sanitized name contains no path separator and no
  control character, and sanitizing it again leaves it unchanged exactly when it is not a
  Windows device name (\<^verbatim>\<open>con\<close>, \<^verbatim>\<open>prn\<close>, \<^verbatim>\<open>aux\<close>, \<^verbatim>\<open>nul\<close>, \<^verbatim>\<open>com0\<close>..\<^verbatim>\<open>com9\<close>,
  \<^verbatim>\<open>lpt0\<close>..\<^verbatim>\<open>lpt9\<close>, in any letter case).
\<close>

theorem C6_sanitization_stability:
  "list_all (\<lambda>c. \<not> isPathSeparator c \<and> \<not> isControl c) (getPngName x) \<and>
   (getPngName (getPngName x) = getPngName x \<longleftrightarrow> \<not> windowsReservedRe (getPngName x))"
proof -
  have "list_all (\<lambda>c. \<not> isPathSeparator c \<and> \<not> isControl c) (getPngName x)"
    using getPngName_clean [of x]
    by (simp add: list_all_iff clean_not_separator clean_not_isControl)
  moreover have "getPngName (getPngName x) = getPngName x \<longleftrightarrow> \<not> windowsReservedRe (getPngName x)"
    using windowsReservedRe_nonempty [of "getPngName x"] by (auto simp: getPngName_twice)
  ultimately show ?thesis by simp
qed

text \<open>
  C7 (as stated): a character survives sanitization if and only if it is a Unicode letter
  or digit. It does not: U+00E9 (Latin small letter e with acute) is a letter, and the
  name made of it is sanitized to \<^verbatim>\<open>"_"\<close>.
\<close>

theorem C7_counterexample:
  "\<not> (\<forall>name c. c \<in> set name \<and> c \<le> 0xFF \<longrightarrow>
        (c \<in> set (getPngName name) \<longleftrightarrow> latin1LetterOrDigit c))"
proof
  assume a: "\<forall>name c. c \<in> set name \<and> c \<le> 0xFF \<longrightarrow>
        (c \<in> set (getPngName name) \<longleftrightarrow> latin1LetterOrDigit c)"
  have "getPngName [0xE9] = [0x5F]"
    by (simp add: sanitize_defs)
  moreover have "latin1LetterOrDigit 0xE9"
    by (simp add: latin1LetterOrDigit_def)
  moreover have "(0xE9 :: unit16) \<in> set [0xE9] \<and> (0xE9 :: unit16) \<le> 0xFF"
    by simp
  moreover from a have "(0xE9 :: unit16) \<in> set [0xE9] \<and> (0xE9 :: unit16) \<le> 0xFF \<longrightarrow>
      ((0xE9 :: unit16) \<in> set (getPngName [0xE9]) \<longleftrightarrow> latin1LetterOrDigit 0xE9)"
    by blast
  ultimately show False by simp
qed

text \<open>
  C7 (amended): for every display name, the sanitized name is what the
  \<^verbatim>\<open>sanitize-filename\<close> package leaves of the name (a subsequence of it: the characters the
  package strips are dropped without a filler), with every code unit other than an ASCII
  letter, an ASCII digit or a CJK ideograph U+4E00..U+9FFF replaced by one underscore. So a
  code unit other than the underscore occurs in the sanitized name if and only if the
  package left it in place and it is of that kept class.
\<close>

theorem C7_kept_and_filled:
  "subseq (sanitize name) name \<and>
   getPngName name = map (\<lambda>c. if keptRe c then c else 0x5F) (sanitize name) \<and>
   set (getPngName name) - {0x5F} = {c \<in> set (sanitize name). keptRe c} - {0x5F}"
proof -
  have 1: "subseq (sanitize name) name"
    by (rule sanitize_subseq)
  have 2: "getPngName name = map (\<lambda>c. if keptRe c then c else 0x5F) (sanitize name)"
    by (simp add: getPngName_def filler_def [abs_def])
  have 3: "set (getPngName name) - {0x5F} = {c \<in> set (sanitize name). keptRe c} - {0x5F}"
    unfolding 2 by (auto split: if_splits)
  from 1 2 3 show ?thesis by simp
qed

section \<open>Properties of the avatar processor and of the import drivers\<close>

lemma ucast_of_char: "(ucast (of_char c :: byte) :: unit16) = of_char c"
proof -
  have "(of_char c :: byte) = of_nat (of_char c)" by (simp add: of_nat_of_char)
  then have "(ucast (of_char c :: byte) :: unit16) = ucast (of_nat (of_char c) :: byte)" by simp
  also have "\<dots> = of_nat (of_char c mod 256)"
    by (simp add: ucast_eq unsigned_of_nat take_bit_eq_mod)
  also have "\<dots> = of_char c"
    by (simp add: of_nat_of_char)
  finally show ?thesis .
qed

lemma toString_bstr: "map ucast (bstr s) = ustr s"
  by (simp add: bstr_def ustr_def ucast_of_char)

lemma ucast16_of_char: "(ucast (of_char c :: unit16) :: byte) = of_char c"
proof -
  have "(of_char c :: unit16) = of_nat (of_char c)" by (simp add: of_nat_of_char)
  then have "(ucast (of_char c :: unit16) :: byte) = ucast (of_nat (of_char c) :: unit16)" by simp
  also have "\<dots> = of_nat ((of_char c :: nat) mod 65536)"
    by (simp add: ucast_eq unsigned_of_nat take_bit_eq_mod)
  also have "\<dots> = of_nat (of_char c :: nat)"
  proof -
    have "(of_char c :: nat) < 65536" using of_char_lt [of c] by linarith
    then show ?thesis by simp
  qed
  also have "\<dots> = of_char c"
    by (simp add: of_nat_of_char)
  finally show ?thesis .
qed

lemma toBytes_ustr: "map ucast (ustr s) = bstr s"
  by (simp add: bstr_def ustr_def ucast16_of_char)

lemma bstr_append: "bstr s @ bstr t = bstr (s @ t)"
  by (simp add: bstr_def)

lemma ustr_neq [simp]: "s \<noteq> t \<Longrightarrow> ustr s \<noteq> ustr t"
  by (simp add: ustr_eq_iff)

lemma statSync_written: "statSync (writeFileAtomicSync fs p b) p = Inr (length b)"
  by (simp add: statSync_def writeFileAtomicSync_def update_conv')

lemma writeCharacterData_result:
  "writeCharacterData E fs inputFile dat outputFile crop =
     (case getInputImage E fs inputFile crop of
        Inl err \<Rightarrow> (False, fs)
      | Inr inputImage \<Rightarrow>
          (case parser_write E inputImage dat of
             Inl err \<Rightarrow> (False, fs)
           | Inr outputImage \<Rightarrow>
               (True, writeFileAtomicSync fs
                  (path_join (PUBLIC_CHARACTERS_DIR E) (outputFile @ ustr ''.png'')) outputImage)))"
  by (simp add: writeCharacterData_def Let_def statSync_written split: sum.splits)

lemma writeCharacterData_True:
  assumes "writeCharacterData E fs inputFile dat outputFile crop = (True, fs')"
  shows "\<exists>img out. parser_write E img dat = Inr out \<and>
           fs' = writeFileAtomicSync fs (path_join (PUBLIC_CHARACTERS_DIR E) (outputFile @ ustr ''.png'')) out"
  using assms unfolding writeCharacterData_result
  by (auto split: sum.splits)

lemma storedArtifact_written:
  "storedArtifact E (writeFileAtomicSync fs (path_join (PUBLIC_CHARACTERS_DIR E) (f @ ustr ''.png'')) out) f = Some out"
  by (simp add: storedArtifact_def writeFileAtomicSync_def update_conv')

lemma storedArtifact_unlink:
  "p \<noteq> path_join (PUBLIC_CHARACTERS_DIR E) (f @ ustr ''.png'') \<Longrightarrow>
   storedArtifact E (snd (unlinkSync fs p)) f = storedArtifact E fs f"
  by (simp add: storedArtifact_def unlinkSync_def delete_conv')

lemma persists_written:
  assumes "writeCharacterData E fs inputFile (JSON_stringify E crec) f crop = (True, fs')"
  shows "persists E fs' f crec"
proof -
  from writeCharacterData_True [OF assms] obtain img out where
    w: "parser_write E img (JSON_stringify E crec) = Inr out" and
    f: "fs' = writeFileAtomicSync fs (path_join (PUBLIC_CHARACTERS_DIR E) (f @ ustr ''.png'')) out"
    by blast
  have "storedArtifact E fs' f = Some out"
    unfolding f by (rule storedArtifact_written)
  with w show ?thesis unfolding persists_def by blast
qed

lemma persists_unlink:
  "p \<noteq> path_join (PUBLIC_CHARACTERS_DIR E) (f @ ustr ''.png'') \<Longrightarrow>
   persists E fs f crec \<Longrightarrow> persists E (snd (unlinkSync fs p)) f crec"
  by (simp add: persists_def storedArtifact_unlink)

text \<open>The three import drivers: an accepted import persists the crec of its crec function.\<close>

lemma importFromYaml_accepted:
  assumes "importFromYaml E fs up h n pr = (Inr f, fs')" and "f \<noteq> []"
  shows "\<exists>bytes crec. readFileSync fs up = Inr bytes \<and>
           yamlRecord E (toString_utf8 E bytes) h n pr = Inr (f, crec) \<and> persists E fs' f crec"
proof -
  from assms(1) obtain bytes where b: "readFileSync fs up = Inr bytes"
    by (cases "readFileSync fs up") (simp_all add: importFromYaml_def)
  obtain r1 fs1 where u: "unlinkSync fs up = (r1, fs1)" by (cases "unlinkSync fs up")
  from assms(1) b u obtain f0 crec where y: "yamlRecord E (toString_utf8 E bytes) h n pr = Inr (f0, crec)"
    by (cases r1; cases "yamlRecord E (toString_utf8 E bytes) h n pr") (auto simp: importFromYaml_def)
  obtain res fs2 where w: "writeCharacterData E fs1 (FilePath (DEFAULT_AVATAR_PATH E)) (JSON_stringify E crec) f0 None = (res, fs2)"
    by (cases "writeCharacterData E fs1 (FilePath (DEFAULT_AVATAR_PATH E)) (JSON_stringify E crec) f0 None")
  from assms b u y w have "res" "f0 = f" "fs2 = fs'"
    by (cases r1; auto simp: importFromYaml_def split: if_splits)+
  with w have "writeCharacterData E fs1 (FilePath (DEFAULT_AVATAR_PATH E)) (JSON_stringify E crec) f None = (True, fs')"
    by simp
  then have "persists E fs' f crec"
    by (rule persists_written)
  with b y \<open>f0 = f\<close> show ?thesis by blast
qed

lemma importFromJson_accepted:
  assumes "importFromJson E fs up h n pr = (Inr f, fs')" and "f \<noteq> []"
  shows "\<exists>bytes crec. readFileSync fs up = Inr bytes \<and>
           jsonRecord E (toString_utf8 E bytes) h n pr = Inr (Some (f, crec)) \<and> persists E fs' f crec"
proof -
  from assms(1) obtain bytes where b: "readFileSync fs up = Inr bytes"
    by (cases "readFileSync fs up") (simp_all add: importFromJson_def)
  obtain r1 fs1 where u: "unlinkSync fs up = (r1, fs1)" by (cases "unlinkSync fs up")
  from assms b u obtain f0 crec where y: "jsonRecord E (toString_utf8 E bytes) h n pr = Inr (Some (f0, crec))"
    by (cases r1; cases "jsonRecord E (toString_utf8 E bytes) h n pr") (auto simp: importFromJson_def split: option.splits)
  obtain res fs2 where w: "writeCharacterData E fs1 (FilePath (DEFAULT_AVATAR_PATH E)) (JSON_stringify E crec) f0 None = (res, fs2)"
    by (cases "writeCharacterData E fs1 (FilePath (DEFAULT_AVATAR_PATH E)) (JSON_stringify E crec) f0 None")
  from assms b u y w have "res" "f0 = f" "fs2 = fs'"
    by (cases r1; auto simp: importFromJson_def split: if_splits)+
  with w have "writeCharacterData E fs1 (FilePath (DEFAULT_AVATAR_PATH E)) (JSON_stringify E crec) f None = (True, fs')"
    by simp
  then have "persists E fs' f crec"
    by (rule persists_written)
  with b y \<open>f0 = f\<close> show ?thesis by blast
qed


lemma importFromPng_try_accepted:
  assumes "importFromPng_try E fs up h n pr = (Inr f, fs')" and "f \<noteq> []"
    and "up \<noteq> path_join (PUBLIC_CHARACTERS_DIR E) (f @ ustr ''.png'')"
  shows "\<exists>imgData crec. payloadText E fs ImportFromPng up = Some imgData \<and>
           pngRecord E imgData h n pr = Inr (f, crec) \<and> persists E fs' f crec"
proof -
  from assms(1) obtain fileBuffer where b: "readFileSync fs up = Inr fileBuffer"
    by (cases "readFileSync fs up") (simp_all add: importFromPng_try_def)
  from assms(1) b have hd: "take 8 fileBuffer = validPngHeader"
    by (auto simp: importFromPng_try_def split: if_splits)
  let ?rd = "case parser_read E (files fs) (Buffer fileBuffer) of
                     Inr d \<Rightarrow> Inr (Some d)
                   | Inl readError \<Rightarrow>
                       (case readCharacterData E fs up (ustr ''png'') of
                          Inr r \<Rightarrow> Inr r
                        | Inl fileReadError \<Rightarrow>
                            Inl (Error (ustr ''PNG analysis failed: '' @
                                          message (pngStructureError fileBuffer))))"
  from assms(1) b hd obtain imgData where i: "?rd = Inr (Some imgData)"
    by (cases ?rd) (auto simp: importFromPng_try_def split: option.splits)
  from assms(1) b hd i obtain f0 crec where y: "pngRecord E imgData h n pr = Inr (f0, crec)"
    by (cases "pngRecord E imgData h n pr") (auto simp: importFromPng_try_def)
  obtain res fs1 where w: "writeCharacterData E fs (FilePath up) (JSON_stringify E crec) f0 None = (res, fs1)"
    by (cases "writeCharacterData E fs (FilePath up) (JSON_stringify E crec) f0 None")
  obtain r2 fs2 where u: "unlinkSync fs1 up = (r2, fs2)" by (cases "unlinkSync fs1 up")
  from assms b hd i y w u have "res" "f0 = f" "fs2 = fs'"
    by (cases r2; auto simp: importFromPng_try_def split: if_splits)+
  with w have "writeCharacterData E fs (FilePath up) (JSON_stringify E crec) f None = (True, fs1)"
    by simp
  then have "persists E fs1 f crec"
    by (rule persists_written)
  with assms(3) have "persists E (snd (unlinkSync fs1 up)) f crec"
    by (simp add: persists_unlink)
  with u \<open>fs2 = fs'\<close> have "persists E fs' f crec" by simp
  moreover from b i have "payloadText E fs ImportFromPng up = Some imgData"
    by (auto simp: payloadText_def split: sum.splits)
  ultimately show ?thesis using y \<open>f0 = f\<close> by blast
qed

lemma importFromPng_accepted:
  assumes "importFromPng E fs up h n pr = (Inr f, fs')" and "f \<noteq> []"
    and "up \<noteq> path_join (PUBLIC_CHARACTERS_DIR E) (f @ ustr ''.png'')"
  shows "\<exists>imgData crec. payloadText E fs ImportFromPng up = Some imgData \<and>
           pngRecord E imgData h n pr = Inr (f, crec) \<and> persists E fs' f crec"
proof -
  obtain r fs1 where t: "importFromPng_try E fs up h n pr = (r, fs1)"
    by (cases "importFromPng_try E fs up h n pr")
  with assms(1) have "r = Inr f" "fs1 = fs'"
    by (cases r; auto simp: importFromPng_def split: if_splits prod.splits sum.splits)+
  with t assms(2,3) show ?thesis
    using importFromPng_try_accepted by blast
qed


lemma getProp_setProp_same: "setProp j k v = Inr j' \<Longrightarrow> getProp j' k = Inr (Some v)"
  by (cases j) (auto simp: update_conv')

lemma getProp_setProp_other: "setProp j k v = Inr j' \<Longrightarrow> k' \<noteq> k \<Longrightarrow> getProp j' k' = getProp j k'"
  by (cases j) (auto simp: update_conv')



lemma stamp_props:
  assumes "stamp E j n h = Inr j'"
  shows "getProp j' (ustr ''uploader'') = Inr (Some (JStr n))"
    and "getProp j' (ustr ''uploader_handle'') = Inr (Some (JStr h))"
    and "getProp j' (ustr ''create_date'') = Inr (Some (JStr (humanizedISO8601DateTime E None)))"
proof -
  from assms obtain j1 j2 where
    1: "setProp j (ustr ''create_date'') (JStr (humanizedISO8601DateTime E None)) = Inr j1" and
    2: "setProp j1 (ustr ''uploader'') (JStr n) = Inr j2" and
    3: "setProp j2 (ustr ''uploader_handle'') (JStr h) = Inr j'"
    by (auto simp: stamp_def thenE_Inr_iff)
  show "getProp j' (ustr ''uploader_handle'') = Inr (Some (JStr h))"
    using 3 by (rule getProp_setProp_same)
  have "getProp j2 (ustr ''uploader'') = Inr (Some (JStr n))"
    using 2 by (rule getProp_setProp_same)
  then show "getProp j' (ustr ''uploader'') = Inr (Some (JStr n))"
    using getProp_setProp_other [OF 3, of "ustr ''uploader''"] by (simp add: ustr_eq_iff)
  have "getProp j1 (ustr ''create_date'') = Inr (Some (JStr (humanizedISO8601DateTime E None)))"
    using 1 by (rule getProp_setProp_same)
  then show "getProp j' (ustr ''create_date'') = Inr (Some (JStr (humanizedISO8601DateTime E None)))"
    using getProp_setProp_other [OF 3, of "ustr ''create_date''"]
      getProp_setProp_other [OF 2, of "ustr ''create_date''"] by (simp add: ustr_eq_iff)
qed








lemma stamp_stamped: "stamp E j n h = Inr j' \<Longrightarrow> stamped E n h j'"
  by (simp add: stamped_def stamp_props)

lemma yamlRecord_stamped:
  assumes "yamlRecord E text h n pr = Inr (f, crec)"
  shows "stamped E n h crec"
  using assms
  by (auto simp: yamlRecord_def thenE_Inr_iff stamped_def ustr_eq_iff)

lemma jsonRecord_stamped:
  assumes "jsonRecord E text h n pr = Inr (Some (f, crec))"
  shows "stamped E n h crec"
  using assms
  by (auto simp: jsonRecord_def thenE_Inr_iff readFromV2_def split: if_splits intro: stamp_stamped)

lemma pngRecord_stamped:
  assumes "pngRecord E imgData h n pr = Inr (f, crec)"
  shows "stamped E n h crec"
  using assms
  by (auto simp: pngRecord_def thenE_Inr_iff readFromV2_def split: if_splits sum.splits intro: stamp_stamped)

lemmas fs_defs =
  readFileSync_def unlinkSync_def existsSync_def writeFileAtomicSync_def statSync_def

lemma sample_env_simps:
  "toString_utf8 sampleEnv = map ucast"
  "JSON_parse sampleEnv = sampleParse"
  "yaml_parse sampleEnv = sampleParse"
  "JSON_stringify sampleEnv = sampleStringify"
  "humanizedISO8601DateTime sampleEnv t = ustr ''2024-1-15 @14h 30m 45s 123ms''"
  "DEFAULT_AVATAR_PATH sampleEnv = ustr ''public/img/ai4.png''"
  "PUBLIC_CHARACTERS_DIR sampleEnv = ustr ''data/public_characters''"
  "Jimp_read sampleEnv fl inp = Inl (Error (ustr ''Could not find MIME for Buffer''))"
  "parser_write sampleEnv img d = Inr (bstr ''CARD:'' @ map ucast d)"
  "parser_read sampleEnv fl (FilePath p) = Inl (Error (ustr ''Invalid .png file header''))"
  "parser_read sampleEnv fl (Buffer b) =
     (if take 5 b = bstr ''CARD:'' then Inr (map ucast (drop 5 b))
      else Inl (Error (ustr ''No PNG metadata.'')))"
  "path_parse_name sampleEnv p = p"
  "ctimeMs sampleEnv p = 0"
  by (simp_all add: sampleEnv_def)

lemma getPngName_Aria: "getPngName (ustr ''Aria'') = ustr ''Aria''"
  by (simp add: sanitize_defs)



lemma sample_jsonRecord_v2:
  "jsonRecord sampleEnv
     (ustr ''{\"spec\":\"chara_card_v2\",\"name\":\"Aria\",\"user_notes\":\"secret\",\"uploader\":\"mallory\"}'')
     (ustr ''alice'') (ustr ''Alice'') None
   = Inr (Some (ustr ''Aria'',
       JObj [(ustr ''spec'', JStr (ustr ''chara_card_v2'')),
             (ustr ''name'', JStr (ustr ''Aria'')),
             (ustr ''uploader'', JStr (ustr ''Alice'')),
             (ustr ''create_date'', JStr (ustr ''2024-1-15 @14h 30m 45s 123ms'')),
             (ustr ''uploader_handle'', JStr (ustr ''alice''))]))"
  by (simp add: jsonRecord_def sample_env_simps sampleParse_def ustr_eq_iff unsetPrivateFields_def
      stamp_def readFromV2_def pngNameFor_def dataNameOrName_def optionalName_def truthyOpt_def
      getPngNameValue_def getPngName_Aria)


lemma sample_json_v2:
  "callImport sampleEnv
     (sampleFs (bstr ''{\"spec\":\"chara_card_v2\",\"name\":\"Aria\",\"user_notes\":\"secret\",\"uploader\":\"mallory\"}''))
     ImportFromJson (ustr ''uploads/tmp1'') (ustr ''alice'') (ustr ''Alice'') None
   = (Inr (JStr (ustr ''Aria'')),
      \<lparr> files = [(ustr ''public/img/ai4.png'', sampleAvatar),
                 (ustr ''data/public_characters/Aria.png'',
                  bstr ''CARD:spec;name;uploader;create_date;uploader_handle;'')],
        unlinks = [(ustr ''uploads/tmp1'', True)] \<rparr>)"
proof -
  let ?doc = "''{\"spec\":\"chara_card_v2\",\"name\":\"Aria\",\"user_notes\":\"secret\",\"uploader\":\"mallory\"}''"
  let ?fs1 = "\<lparr> files = [(ustr ''public/img/ai4.png'', sampleAvatar)], unlinks = [(ustr ''uploads/tmp1'', True)] \<rparr>"
  have r: "readFileSync (sampleFs (bstr ?doc)) (ustr ''uploads/tmp1'') = Inr (bstr ?doc)"
    by (simp add: readFileSync_def sampleFs_def)
  have u: "unlinkSync (sampleFs (bstr ?doc)) (ustr ''uploads/tmp1'') = (Inr (), ?fs1)"
    by (simp add: unlinkSync_def existsSync_def sampleFs_def ustr_eq_iff)
  have g: "getInputImage sampleEnv ?fs1 (FilePath (ustr ''public/img/ai4.png'')) None = Inr sampleAvatar"
    by (simp add: getInputImage_def parseImageBuffer_def tryReadImage_def sample_env_simps
        endsWith_def readFileSync_def ustr_eq_iff)
  have s: "sampleStringify (JObj [(ustr ''spec'', JStr (ustr ''chara_card_v2'')),
             (ustr ''name'', JStr (ustr ''Aria'')),
             (ustr ''uploader'', JStr (ustr ''Alice'')),
             (ustr ''create_date'', JStr (ustr ''2024-1-15 @14h 30m 45s 123ms'')),
             (ustr ''uploader_handle'', JStr (ustr ''alice''))])
        = ustr ''spec;name;uploader;create_date;uploader_handle;''"
    by (simp add: sampleStringify_def ustr_append)
  have w: "writeCharacterData sampleEnv ?fs1 (FilePath (ustr ''public/img/ai4.png''))
            (ustr ''spec;name;uploader;create_date;uploader_handle;'') (ustr ''Aria'') None
         = (True, \<lparr> files = [(ustr ''public/img/ai4.png'', sampleAvatar),
                 (ustr ''data/public_characters/Aria.png'',
                  bstr ''CARD:spec;name;uploader;create_date;uploader_handle;'')],
        unlinks = [(ustr ''uploads/tmp1'', True)] \<rparr>)"
    by (simp add: writeCharacterData_result g sample_env_simps toBytes_ustr writeFileAtomicSync_def
        path_join_def ustr_append ustr_eq_iff bstr_append)
  show ?thesis
    by (simp add: callImport_def importFromJson_def r u sample_env_simps toString_bstr
        sample_jsonRecord_v2 s w)
qed



text \<open>
  C3: for every accepted import by the yaml, json or png driver, the record persisted in the
  stored artifact carries the caller's display name and handle as \<^verbatim>\<open>uploader\<close> and
  \<^verbatim>\<open>uploader_handle\<close> and the server's time stamp as \<^verbatim>\<open>create_date\<close>, whatever the payload
  said. (For the png driver the stored artifact is still there after the job only when the
  upload path is not the artifact's own path.)
\<close>

theorem C3_uploader_stamped:
  assumes drv: "importFunction \<in> {ImportFromYaml, ImportFromJson, ImportFromPng}"
    and acc: "callImport E fs importFunction uploadPath uploaderHandle uploaderName preservedFileName
                = (Inr (JStr fileName), fs')"
    and ne: "fileName \<noteq> []"
    and up: "importFunction = ImportFromPng \<longrightarrow>
               uploadPath \<noteq> path_join (PUBLIC_CHARACTERS_DIR E) (fileName @ ustr ''.png'')"
  shows "\<exists>crec. persists E fs' fileName crec \<and>
           getProp crec (ustr ''uploader'') = Inr (Some (JStr uploaderName)) \<and>
           getProp crec (ustr ''uploader_handle'') = Inr (Some (JStr uploaderHandle)) \<and>
           getProp crec (ustr ''create_date'') = Inr (Some (JStr (humanizedISO8601DateTime E None)))"
proof -
  have "\<exists>crec. persists E fs' fileName crec \<and> stamped E uploaderName uploaderHandle crec"
  proof (cases importFunction)
    case ImportFromYaml
    with acc have "importFromYaml E fs uploadPath uploaderHandle uploaderName preservedFileName = (Inr fileName, fs')"
      by (auto simp: callImport_def split: prod.splits sum.splits)
    from importFromYaml_accepted [OF this ne] show ?thesis
      using yamlRecord_stamped by blast
  next
    case ImportFromJson
    with acc have "importFromJson E fs uploadPath uploaderHandle uploaderName preservedFileName = (Inr fileName, fs')"
      by (auto simp: callImport_def split: prod.splits sum.splits)
    from importFromJson_accepted [OF this ne] show ?thesis
      using jsonRecord_stamped by blast
  next
    case ImportFromPng
    with acc have "importFromPng E fs uploadPath uploaderHandle uploaderName preservedFileName = (Inr fileName, fs')"
      by (auto simp: callImport_def split: prod.splits sum.splits)
    moreover from ImportFromPng up
    have "uploadPath \<noteq> path_join (PUBLIC_CHARACTERS_DIR E) (fileName @ ustr ''.png'')" by simp
    ultimately show ?thesis
      using importFromPng_accepted [of E fs uploadPath uploaderHandle uploaderName preservedFileName fileName fs'] ne
        pngRecord_stamped by blast
  next
    case (Inherited m)
    with drv show ?thesis by simp
  qed
  then show ?thesis by (simp add: stamped_def)
qed

theorem C3_witness:
  "ImportFromJson \<in> {ImportFromYaml, ImportFromJson, ImportFromPng} \<and>
   callImport sampleEnv
     (sampleFs (bstr ''{\"spec\":\"chara_card_v2\",\"name\":\"Aria\",\"user_notes\":\"secret\",\"uploader\":\"mallory\"}''))
     ImportFromJson (ustr ''uploads/tmp1'') (ustr ''alice'') (ustr ''Alice'') None
   = (Inr (JStr (ustr ''Aria'')),
      \<lparr> files = [(ustr ''public/img/ai4.png'', sampleAvatar),
                 (ustr ''data/public_characters/Aria.png'',
                  bstr ''CARD:spec;name;uploader;create_date;uploader_handle;'')],
        unlinks = [(ustr ''uploads/tmp1'', True)] \<rparr>) \<and>
   ustr ''Aria'' \<noteq> [] \<and>
   (\<exists>crec. persists sampleEnv
      \<lparr> files = [(ustr ''public/img/ai4.png'', sampleAvatar),
                 (ustr ''data/public_characters/Aria.png'',
                  bstr ''CARD:spec;name;uploader;create_date;uploader_handle;'')],
        unlinks = [(ustr ''uploads/tmp1'', True)] \<rparr> (ustr ''Aria'') crec \<and>
      getProp crec (ustr ''uploader'') = Inr (Some (JStr (ustr ''Alice''))) \<and>
      getProp crec (ustr ''uploader_handle'') = Inr (Some (JStr (ustr ''alice''))) \<and>
      getProp crec (ustr ''create_date'') = Inr (Some (JStr (humanizedISO8601DateTime sampleEnv None))))"
proof -
  have h1: "ImportFromJson \<in> {ImportFromYaml, ImportFromJson, ImportFromPng}" by simp
  have h3: "ustr ''Aria'' \<noteq> []" by (simp add: ustr_def)
  have h4: "ImportFromJson = ImportFromPng \<longrightarrow>
      ustr ''uploads/tmp1'' \<noteq> path_join (PUBLIC_CHARACTERS_DIR sampleEnv) (ustr ''Aria'' @ ustr ''.png'')"
    by simp
  from C3_uploader_stamped [OF h1 sample_json_v2 h3 h4] h1 h3 sample_json_v2
  show ?thesis by simp
qed


















section \<open>Properties of the listing, the delete route and the upload route\<close>

lemma setProp_isObject: "setProp j k v = Inr j' \<Longrightarrow> isObject j'"
  by (cases j) (auto simp: isObject_def)

lemma processCharacter_try_isObject:
  "processCharacter_try E fs item = Inr c \<Longrightarrow> isObject c"
  by (auto simp: processCharacter_try_def Let_def thenE_Inr_iff split: option.splits
      dest: setProp_isObject)

lemma processCharacter_stub:
  "processCharacter_try E fs item = Inl err \<Longrightarrow>
   processCharacter E fs item = stub (replaceFirst (ustr ''.png'') [] item)"
  by (simp add: processCharacter_def stub_def)

lemma processCharacter_isObject: "isObject (processCharacter E fs item)"
  by (cases "processCharacter_try E fs item")
     (simp_all add: processCharacter_def isObject_def processCharacter_try_isObject [unfolded isObject_def])

lemma getProp_isObject: "isObject c \<Longrightarrow> \<exists>v. getProp c k = Inr v"
  by (cases c) (simp_all add: isObject_def)

lemma filterNamed_objects:
  "list_all isObject cs \<Longrightarrow> filterNamed cs = Inr (filter named cs)"
proof (induction cs)
  case Nil
  show ?case by simp
next
  case (Cons c cs)
  then obtain v where v: "getProp c (ustr ''name'') = Inr v"
    using getProp_isObject [of c] by auto
  have "named c \<longleftrightarrow> truthyOpt v"
    by (cases v) (simp_all add: named_def v truthyOpt_def)
  with Cons v show ?case by simp
qed

lemma listAll_result:
  "listAll E fs = Response 200 (JArr (filter named (map (processCharacter E fs) (pngItems E fs))) [])"
proof -
  have "list_all isObject (map (processCharacter E fs) (pngItems E fs))"
    by (simp add: list_all_iff processCharacter_isObject)
  then show ?thesis
    by (simp add: listAll_def pngItems_def [symmetric] Let_def filterNamed_objects)
qed

lemma named_stub: "named (stub stem) \<longleftrightarrow> stem \<noteq> []"
  by (simp add: named_def stub_def ustr_eq_iff)


lemma png_border:
  assumes "prefix (ustr ''.png'') (xs @ ustr ''.png'')"
  shows "xs = [] \<or> prefix (ustr ''.png'') xs"
  using assms
  by (cases xs; cases "tl xs"; cases "tl (tl xs)"; cases "tl (tl (tl xs))") (auto simp: ustr_def)

lemma replaceFirst_png:
  "\<not> sublist (ustr ''.png'') stem \<Longrightarrow> replaceFirst (ustr ''.png'') [] (stem @ ustr ''.png'') = stem"
proof (induction stem)
  case Nil
  show ?case by (simp add: ustr_def)
next
  case (Cons c s)
  from Cons.prems have ns: "\<not> sublist (ustr ''.png'') s" and np: "\<not> prefix (ustr ''.png'') (c # s)"
    by (auto simp: sublist_Cons_right)
  from np png_border [of "c # s"] have "\<not> prefix (ustr ''.png'') (c # s @ ustr ''.png'')"
    by auto
  with Cons.IH [OF ns] show ?case by simp
qed

text \<open>
  C9 (as stated): every stored artifact whose decode fails is represented in the listing by
  a degraded stub. It is not when the stub's name is empty: the listing keeps only entries
  with a truthy \<^verbatim>\<open>name\<close>, so an undecodable artifact stored as \<^verbatim>\<open>.png\<close> is left out.
\<close>

theorem C9_counterexample:
  "pngItems sampleEnv \<lparr> files = [(ustr ''data/public_characters/.png'', [0, 1, 2])], unlinks = [] \<rparr>
     = [ustr ''.png''] \<and>
   processCharacter_try sampleEnv
     \<lparr> files = [(ustr ''data/public_characters/.png'', [0, 1, 2])], unlinks = [] \<rparr> (ustr ''.png'')
     = Inl (Error (ustr ''Failed to read character file'')) \<and>
   listAll sampleEnv \<lparr> files = [(ustr ''data/public_characters/.png'', [0, 1, 2])], unlinks = [] \<rparr>
     = Response 200 (JArr [] [])"
proof -
  let ?fs = "\<lparr> files = [(ustr ''data/public_characters/.png'', [0, 1, 2])], unlinks = [] \<rparr>"
  have i: "pngItems sampleEnv ?fs = [ustr ''.png'']"
    by (simp add: pngItems_def readdirSync_def sample_env_simps endsWith_def ustr_def)
  have t: "processCharacter_try sampleEnv ?fs (ustr ''.png'') = Inl (Error (ustr ''Failed to read character file''))"
    by (simp add: processCharacter_try_def path_join_def readFileSync_def sample_env_simps
        readCharacterData_def ustr_append bstr_def)
  have "processCharacter sampleEnv ?fs (ustr ''.png'') = stub []"
    using processCharacter_stub [OF t] by (simp add: ustr_def)
  then have "listAll sampleEnv ?fs = Response 200 (JArr [] [])"
    by (simp add: listAll_result i named_stub)
  with i t show ?thesis by simp
qed

text \<open>
  C9 (amended): the listing always succeeds, and it has one entry, decoded on its own, for
  each stored \<^verbatim>\<open>.png\<close> artifact whose character has a truthy \<^verbatim>\<open>name\<close>. An artifact whose decode
  or JSON parse fails, and whose file name contains \<^verbatim>\<open>.png\<close> only as its extension, becomes the
  stub with the file name minus the extension as its name and \<^verbatim>\<open>Unknown\<close> as its uploader;
  the stub is listed exactly when that name is not empty.
\<close>

theorem C9_listing_isolation:
  "listAll E fs = Response 200 (JArr (filter named (map (processCharacter E fs) (pngItems E fs))) []) \<and>
   (\<forall>stem err.
      stem @ ustr ''.png'' \<in> set (pngItems E fs) \<and>
      processCharacter_try E fs (stem @ ustr ''.png'') = Inl err \<and>
      \<not> sublist (ustr ''.png'') stem \<longrightarrow>
      processCharacter E fs (stem @ ustr ''.png'') = stub stem \<and>
      (stub stem \<in> set (filter named (map (processCharacter E fs) (pngItems E fs))) \<longleftrightarrow> stem \<noteq> []))"
proof -
  have 1: "listAll E fs = Response 200 (JArr (filter named (map (processCharacter E fs) (pngItems E fs))) [])"
    by (rule listAll_result)
  have 2: "processCharacter E fs (stem @ ustr ''.png'') = stub stem \<and>
      (stub stem \<in> set (filter named (map (processCharacter E fs) (pngItems E fs))) \<longleftrightarrow> stem \<noteq> [])"
    if a: "stem @ ustr ''.png'' \<in> set (pngItems E fs)"
      and b: "processCharacter_try E fs (stem @ ustr ''.png'') = Inl err"
      and c: "\<not> sublist (ustr ''.png'') stem" for stem err
  proof -
    have s: "processCharacter E fs (stem @ ustr ''.png'') = stub stem"
      using processCharacter_stub [OF b] replaceFirst_png [OF c] by simp
    with a have "stub stem \<in> set (map (processCharacter E fs) (pngItems E fs))"
      by (metis image_eqI list.set_map)
    then show ?thesis using s by (simp add: named_stub)
  qed
  from 1 2 show ?thesis by blast
qed

lemma w_items: "pngItems sampleEnv sampleStore = [ustr ''Aria.png'', ustr ''Broken.png'']"
  by (simp add: pngItems_def readdirSync_def sample_env_simps endsWith_def sampleStore_def ustr_def suffix_to_prefix)

lemma w_broken: "processCharacter_try sampleEnv sampleStore (ustr ''Broken.png'') = Inl (Error (ustr ''Failed to read character file''))"
    by (simp add: processCharacter_try_def path_join_def readFileSync_def sample_env_simps
        readCharacterData_def ustr_append bstr_def sampleStore_def ustr_eq_iff)

lemma take_bstr: "take n (bstr s) = bstr (take n s)" "drop n (bstr s) = bstr (drop n s)"
  by (simp_all add: bstr_def take_map drop_map)

lemma bstr_eq_iff: "bstr s = bstr t \<longleftrightarrow> s = t"
proof -
  have "inj (of_char :: char \<Rightarrow> byte)"
  proof (rule injI)
    fix c d :: char
    assume "(of_char c :: byte) = of_char d"
    then have "(ucast (of_char c :: byte) :: unit16) = ucast (of_char d :: byte)" by simp
    then show "c = d" by (simp add: ucast_of_char of_char16_eq_iff)
  qed
  then show ?thesis by (simp add: bstr_def inj_map_eq_map)
qed

lemma w_aria: "processCharacter_try sampleEnv sampleStore (ustr ''Aria.png'') =
   Inr (JObj [(ustr ''name'', JStr (ustr ''Aria'')),
              (ustr ''avatar'', JStr (ustr ''Aria.png'')),
              (ustr ''json_data'', JStr (ustr ''{\"name\":\"Aria\"}'')),
              (ustr ''date_added'', JNum 0),
              (ustr ''create_date'', JStr (ustr ''2024-1-15 @14h 30m 45s 123ms'')),
              (ustr ''uploader'', JStr (ustr ''Unknown'')),
              (ustr ''uploader_handle'', JStr (ustr ''unknown'')),
              (ustr ''description'', JStr []),
              (ustr ''tags'', JArr [] [])])"
    by (simp add: processCharacter_try_def path_join_def readFileSync_def statSync_def sample_env_simps
        ustr_append sampleStore_def ustr_eq_iff take_bstr bstr_eq_iff toString_bstr sampleParse_def orElse_def)

theorem C9_witness:
  "ustr ''Broken'' @ ustr ''.png'' \<in> set (pngItems sampleEnv sampleStore) \<and>
   processCharacter_try sampleEnv sampleStore (ustr ''Broken'' @ ustr ''.png'') =
     Inl (Error (ustr ''Failed to read character file'')) \<and>
   \<not> sublist (ustr ''.png'') (ustr ''Broken'') \<and>
   processCharacter sampleEnv sampleStore (ustr ''Broken'' @ ustr ''.png'') = stub (ustr ''Broken'') \<and>
   listAll sampleEnv sampleStore =
     Response 200 (JArr [processCharacter sampleEnv sampleStore (ustr ''Aria.png''), stub (ustr ''Broken'')] []) \<and>
   getProp (processCharacter sampleEnv sampleStore (ustr ''Aria.png'')) (ustr ''name'') =
     Inr (Some (JStr (ustr ''Aria'')))"
proof -
  have a: "ustr ''Broken'' @ ustr ''.png'' \<in> set (pngItems sampleEnv sampleStore)"
    by (simp add: w_items ustr_append ustr_eq_iff)
  have b: "processCharacter_try sampleEnv sampleStore (ustr ''Broken'' @ ustr ''.png'') =
     Inl (Error (ustr ''Failed to read character file''))"
    by (simp add: ustr_append w_broken)
  have c: "\<not> sublist (ustr ''.png'') (ustr ''Broken'')"
    by (simp add: ustr_def sublist_Cons_right)
  have d: "processCharacter sampleEnv sampleStore (ustr ''Aria.png'') =
    JObj [(ustr ''name'', JStr (ustr ''Aria'')),
              (ustr ''avatar'', JStr (ustr ''Aria.png'')),
              (ustr ''json_data'', JStr (ustr ''{\"name\":\"Aria\"}'')),
              (ustr ''date_added'', JNum 0),
              (ustr ''create_date'', JStr (ustr ''2024-1-15 @14h 30m 45s 123ms'')),
              (ustr ''uploader'', JStr (ustr ''Unknown'')),
              (ustr ''uploader_handle'', JStr (ustr ''unknown'')),
              (ustr ''description'', JStr []),
              (ustr ''tags'', JArr [] [])]"
    by (simp add: processCharacter_def w_aria)
  have n: "named (processCharacter sampleEnv sampleStore (ustr ''Aria.png''))"
    by (simp add: d named_def ustr_eq_iff ustr_Nil_iff)
  from C9_listing_isolation [of sampleEnv sampleStore] a b c
  have l: "listAll sampleEnv sampleStore =
      Response 200 (JArr (filter named (map (processCharacter sampleEnv sampleStore) (pngItems sampleEnv sampleStore))) [])"
    and s: "processCharacter sampleEnv sampleStore (ustr ''Broken'' @ ustr ''.png'') = stub (ustr ''Broken'')"
    by blast+
  from s have s': "processCharacter sampleEnv sampleStore (ustr ''Broken.png'') = stub (ustr ''Broken'')"
    by (simp add: ustr_append)
  have "named (stub (ustr ''Broken''))"
    by (simp add: named_stub ustr_Nil_iff)
  with l n s' have "listAll sampleEnv sampleStore =
     Response 200 (JArr [processCharacter sampleEnv sampleStore (ustr ''Aria.png''), stub (ustr ''Broken'')] [])"
    by (simp add: w_items)
  moreover have "getProp (processCharacter sampleEnv sampleStore (ustr ''Aria.png'')) (ustr ''name'') =
     Inr (Some (JStr (ustr ''Aria'')))"
    by (simp add: d)
  ultimately show ?thesis using a b c s by simp
qed

lemma existsSync_unlinked: "\<not> existsSync (snd (unlinkSync fs p)) p"
  by (simp add: unlinkSync_def existsSync_def delete_conv')

lemma deleteCharacter_decision:
  assumes "existsSync fs (path_join (PUBLIC_CHARACTERS_DIR E) (character_name @ ustr ''.png''))"
    and "character_name \<noteq> []"
  shows "deleteCharacter E fs (deleteRequest character_name handle admin) =
     (if admin \<or> getProp (processCharacter E fs (character_name @ ustr ''.png'')) (ustr ''uploader_handle'')
                    = Inr (Some (JStr handle))
      then (Response 200 (JObj [(ustr ''success'', JBool True)]),
            snd (unlinkSync fs (path_join (PUBLIC_CHARACTERS_DIR E) (character_name @ ustr ''.png''))))
      else (Response 403 (errorBody (ustr ''Permission denied. Only admins or the character uploader can delete this character.'')),
            fs))"
proof -
  obtain v where v: "getProp (processCharacter E fs (character_name @ ustr ''.png'')) (ustr ''uploader_handle'') = Inr v"
    using getProp_isObject [OF processCharacter_isObject] by blast
  show ?thesis
    using assms v
    by (simp add: deleteCharacter_def deleteRequest_def Let_def unlinkSync_def)
qed

text \<open>
  C10: a requester who is neither an admin nor the recorded uploader is denied. The code
  falls short of this for the handle \<^verbatim>\<open>unknown\<close>: an artifact that cannot be decoded is
  processed to the stub whose \<^verbatim>\<open>uploader_handle\<close> is the string \<^verbatim>\<open>unknown\<close>, so a requester
  with that handle, not an admin, passes the check and the file is unlinked.
\<close>

theorem C10_unknown_handle_deletes:
  assumes ex: "existsSync fs (path_join (PUBLIC_CHARACTERS_DIR E) (character_name @ ustr ''.png''))"
    and nm: "character_name \<noteq> []"
    and undecodable: "processCharacter_try E fs (character_name @ ustr ''.png'') = Inl err"
  shows "deleteCharacter E fs (deleteRequest character_name (ustr ''unknown'') False) =
           (Response 200 (JObj [(ustr ''success'', JBool True)]),
            snd (unlinkSync fs (path_join (PUBLIC_CHARACTERS_DIR E) (character_name @ ustr ''.png'')))) \<and>
         \<not> existsSync (snd (deleteCharacter E fs (deleteRequest character_name (ustr ''unknown'') False)))
             (path_join (PUBLIC_CHARACTERS_DIR E) (character_name @ ustr ''.png''))"
proof -
  have "getProp (processCharacter E fs (character_name @ ustr ''.png'')) (ustr ''uploader_handle'')
          = Inr (Some (JStr (ustr ''unknown'')))"
    using processCharacter_stub [OF undecodable] by (simp add: stub_def ustr_eq_iff)
  with deleteCharacter_decision [OF ex nm, of "ustr ''unknown''" False]
  have "deleteCharacter E fs (deleteRequest character_name (ustr ''unknown'') False) =
           (Response 200 (JObj [(ustr ''success'', JBool True)]),
            snd (unlinkSync fs (path_join (PUBLIC_CHARACTERS_DIR E) (character_name @ ustr ''.png''))))"
    by simp
  then show ?thesis by (simp add: existsSync_unlinked)
qed

theorem C10_witness:
  "existsSync sampleStore (path_join (PUBLIC_CHARACTERS_DIR sampleEnv) (ustr ''Broken'' @ ustr ''.png'')) \<and>
   ustr ''Broken'' \<noteq> [] \<and>
   processCharacter_try sampleEnv sampleStore (ustr ''Broken'' @ ustr ''.png'') =
     Inl (Error (ustr ''Failed to read character file'')) \<and>
   deleteCharacter sampleEnv sampleStore (deleteRequest (ustr ''Broken'') (ustr ''unknown'') False) =
     (Response 200 (JObj [(ustr ''success'', JBool True)]),
      \<lparr> files = [(ustr ''data/public_characters/Aria.png'', bstr ''CARD:{\"name\":\"Aria\"}'')],
        unlinks = [(ustr ''data/public_characters/Broken.png'', True)] \<rparr>)"
proof -
  have a: "existsSync sampleStore (path_join (PUBLIC_CHARACTERS_DIR sampleEnv) (ustr ''Broken'' @ ustr ''.png''))"
    by (simp add: existsSync_def sampleStore_def path_join_def sample_env_simps ustr_append ustr_eq_iff)
  have b: "ustr ''Broken'' \<noteq> []" by (simp add: ustr_def)
  have c: "processCharacter_try sampleEnv sampleStore (ustr ''Broken'' @ ustr ''.png'') =
     Inl (Error (ustr ''Failed to read character file''))"
    by (simp add: ustr_append w_broken)
  have "snd (unlinkSync sampleStore (path_join (PUBLIC_CHARACTERS_DIR sampleEnv) (ustr ''Broken'' @ ustr ''.png''))) =
      \<lparr> files = [(ustr ''data/public_characters/Aria.png'', bstr ''CARD:{\"name\":\"Aria\"}'')],
        unlinks = [(ustr ''data/public_characters/Broken.png'', True)] \<rparr>"
    by (simp add: unlinkSync_def existsSync_def sampleStore_def path_join_def sample_env_simps ustr_append ustr_eq_iff)
  with C10_unknown_handle_deletes [OF a b c] a b c show ?thesis by simp
qed

text \<open>
  C8: every upload job deletes its temp file. The code falls short of this for a format
  that names a member inherited from \<^verbatim>\<open>Object.prototype\<close>: for \<^verbatim>\<open>file_type = constructor\<close> the
  route finds \<^verbatim>\<open>Object\<close>, calls it, takes the String object it returns for a file name and
  answers with success; the file system is left as it was, the temp file included.
\<close>

theorem C8_inherited_format_keeps_temp_file:
  "upload E fs
     \<lparr> req_body = Some [(ustr ''file_type'', ustr ''constructor'')],
       req_file = Some (destination, filename),
       req_handle = handle, req_name = display, req_admin = admin \<rparr>
   = (Response 200 (JObj [(ustr ''file_name'', JStr (path_join destination filename))]), fs)"
proof -
  have f: "formatImportFunctions (ustr ''constructor'') = Some (Inherited (ustr ''constructor''))"
    by (simp add: formatImportFunctions_def objectPrototypeKeys_def ustr_eq_iff)
  have t: "truthy (JStr (path_join destination filename))"
    by (simp add: path_join_def ustr_def)
  show ?thesis
    using t by (simp add: upload_def Let_def f callImport_def callInherited_def ustr_eq_iff)
qed

section \<open>Properties of the PNG chunk stream and of the PNG import\<close>

lemma length_word_be32 [simp]: "length (word_be32 w) = 4"
  by (simp add: word_be32_def)

lemma length_be32 [simp]: "length (be32 n) = 4"
  by (simp add: be32_def)

lemma bytes_of_nat32:
  fixes n :: nat
  assumes "n < 4294967296"
  shows "n div 16777216 mod 256 * 16777216 + n div 65536 mod 256 * 65536 +
      n div 256 mod 256 * 256 + n mod 256 = n"
proof -
  define m1 where "m1 = n div 256"
  define m2 where "m2 = m1 div 256"
  define m3 where "m3 = m2 div 256"
  have d2: "n div 65536 = m2"
    unfolding m2_def m1_def by (simp add: div_mult2_eq [symmetric])
  have d3: "n div 16777216 = m3"
    unfolding m3_def m2_def m1_def by (simp add: div_mult2_eq [symmetric])
  have "n div 16777216 < 256"
    using assms by (simp add: div_less_iff_less_mult)
  then have "m3 < 256" by (simp only: d3)
  then have e3: "m3 mod 256 = m3" by simp
  have e0: "n = m1 * 256 + n mod 256"
    unfolding m1_def by simp
  have e1: "m1 = m2 * 256 + m1 mod 256"
    unfolding m2_def by simp
  have e2: "m2 = m3 * 256 + m2 mod 256"
    unfolding m3_def by simp
  have "m3 * 16777216 + m2 mod 256 * 65536 + m1 mod 256 * 256 + n mod 256 = n"
    using e0 e1 e2 by linarith
  then show ?thesis
    by (simp add: d2 d3 e3 m1_def [symmetric])
qed


lemma unat_byte_of_word:
  "unat (ucast (drop_bit k w) :: byte) = unat w div 2 ^ k mod 256" for w :: "32 word"
proof -
  have "unat (ucast (drop_bit k w) :: byte) = take_bit 8 (unat (drop_bit k w))"
    by (simp only: unsigned_ucast_eq len_bit0 len_num1) simp
  also have "\<dots> = take_bit 8 (drop_bit k (unat w))"
    by (simp only: unat_drop_bit_eq)
  also have "\<dots> = unat w div 2 ^ k mod 256"
    by (simp only: take_bit_eq_mod drop_bit_eq_div) simp
  finally show ?thesis .
qed

lemma uint32_word_be32: "uint32 (word_be32 w) = unat w"
proof -
  have lt: "unat w < 4294967296"
    using unsigned_less [of w, where ?'a = nat] by simp
  have "uint32 (word_be32 w) =
      unat w div 16777216 mod 256 * 16777216 + unat w div 65536 mod 256 * 65536 +
      unat w div 256 mod 256 * 256 + unat w mod 256"
    using unat_byte_of_word [of 24 w] unat_byte_of_word [of 16 w] unat_byte_of_word [of 8 w]
      unat_byte_of_word [of 0 w]
    by (simp add: uint32_def word_be32_def)
  also have "\<dots> = unat w"
    using lt by (rule bytes_of_nat32)
  finally show ?thesis .
qed

lemma uint32_be32: "n < 2 ^ 32 \<Longrightarrow> uint32 (be32 n) = n"
  by (simp add: be32_def uint32_word_be32 unat_of_nat)

lemma readBytes_append: "length a = n \<Longrightarrow> readBytes (a @ r) n = a"
  by (simp add: readBytes_def)


lemma extractFrom_chunk:
  assumes wf: "wfChunk c" and first: "chunks \<noteq> [] \<or> chunk_name c = IHDR"
  shows "extractFrom chunks (chunkBytes c @ rest) = extractFrom (chunks @ [c]) rest"
proof -
  obtain name dat where c: "c = Chunk name dat" by (cases c)
  from wf c have ln: "length name = 4" and ne: "name \<noteq> IEND" and ld: "length dat < 2 ^ 32"
    by (simp_all add: wfChunk_def)
  let ?crc = "word_be32 (crc32 (name @ dat))"
  let ?bs = "be32 (length dat) @ name @ dat @ ?crc @ rest"
  have bs: "chunkBytes c @ rest = ?bs"
    by (simp add: chunkBytes_def c)
  have 0: "?bs \<noteq> []"
    using length_be32 [of "length dat"] by (metis append_is_Nil_conv length_0_conv zero_neq_numeral)
  have 1: "uint32 (readBytes ?bs 4) = length dat"
    using ld by (simp add: readBytes_append uint32_be32)
  have 2: "readBytes (drop 4 ?bs) 4 = name"
    using ln by (simp add: readBytes_append)
  have 3: "readBytes (drop 8 ?bs) (length dat) = dat"
    using ln by (simp add: readBytes_append)
  have 4: "readBytes (drop (8 + length dat) ?bs) 4 = ?crc"
    using ln by (simp add: readBytes_append)
  have 5: "drop (12 + length dat) ?bs = rest"
    using ln by simp
  from first c have 6: "\<not> (chunks = [] \<and> name \<noteq> IHDR)" by auto
  show ?thesis
    unfolding bs
    by (subst extractFrom.simps) (simp only: 0 1 2 3 4 5 6 ne Let_def if_False c not_False_eq_True simp_thms)
qed

lemma extractFrom_IEND:
  assumes "chunks \<noteq> []"
  shows "extractFrom chunks (chunkBytes (Chunk IEND []) @ rest) = Inr (chunks @ [Chunk IEND []])"
proof -
  let ?bs = "be32 0 @ IEND @ word_be32 (crc32 IEND) @ rest"
  have bs: "chunkBytes (Chunk IEND []) @ rest = ?bs"
    by (simp add: chunkBytes_def)
  have 0: "?bs \<noteq> []"
    using length_be32 [of 0] by (metis append_is_Nil_conv length_0_conv zero_neq_numeral)
  have "length IEND = 4" by (simp add: IEND_def)
  then have 2: "readBytes (drop 4 ?bs) 4 = IEND"
    by (simp add: readBytes_append)
  show ?thesis
    unfolding bs
    by (subst extractFrom.simps) (simp only: 0 2 assms Let_def if_False if_True simp_thms)
qed

lemma extractFrom_chunks:
  assumes "list_all wfChunk cs" and "chunks \<noteq> [] \<or> (cs \<noteq> [] \<and> chunk_name (hd cs) = IHDR)"
  shows "extractFrom chunks (concat (map chunkBytes cs) @ chunkBytes (Chunk IEND []) @ rest)
           = Inr (chunks @ cs @ [Chunk IEND []])"
  using assms
proof (induction cs arbitrary: chunks)
  case Nil
  then show ?case by (simp add: extractFrom_IEND)
next
  case (Cons c cs)
  from Cons.prems have wf: "wfChunk c" and wfs: "list_all wfChunk cs"
    and first: "chunks \<noteq> [] \<or> chunk_name c = IHDR"
    by auto
  have "extractFrom chunks (concat (map chunkBytes (c # cs)) @ chunkBytes (Chunk IEND []) @ rest)
      = extractFrom chunks (chunkBytes c @ (concat (map chunkBytes cs) @ chunkBytes (Chunk IEND []) @ rest))"
    by simp
  also have "\<dots> = extractFrom (chunks @ [c]) (concat (map chunkBytes cs) @ chunkBytes (Chunk IEND []) @ rest)"
    using wf first by (rule extractFrom_chunk)
  also have "\<dots> = Inr ((chunks @ [c]) @ cs @ [Chunk IEND []])"
    using wfs by (intro Cons.IH) simp_all
  finally show ?case by simp
qed


lemma extract_encode:
  assumes "list_all wfChunk inner" and "inner \<noteq> []" and "chunk_name (hd inner) = IHDR"
  shows "extractChunks (encodeChunks (inner @ [Chunk IEND []])) = Inr (inner @ [Chunk IEND []])"
proof -
  let ?r = "concat (map chunkBytes inner) @ chunkBytes (Chunk IEND []) @ []"
  have e: "encodeChunks (inner @ [Chunk IEND []]) = validPngHeader @ ?r"
    by (simp add: encodeChunks_def)
  have h: "readBytes (validPngHeader @ ?r) 8 = validPngHeader"
    by (rule readBytes_append) (simp add: validPngHeader_def)
  have d: "drop 8 (validPngHeader @ ?r) = ?r"
    by (simp add: validPngHeader_def)
  have "extractFrom [] ?r = Inr ([] @ inner @ [Chunk IEND []])"
    using assms by (intro extractFrom_chunks) simp_all
  then show ?thesis
    unfolding e extractChunks_def h d by simp
qed

lemma readCharacterData_never_throws: "\<exists>r. readCharacterData E fs inputFile inputFormat = Inr r"
  by (simp add: readCharacterData_def split: sum.splits)

lemma wf_sampleHeaderChunk: "wfChunk sampleHeaderChunk" "chunk_name sampleHeaderChunk = IHDR"
  by (simp_all add: wfChunk_def sampleHeaderChunk_def IHDR_def IEND_def)

lemma wf_otherText: "wfChunk (PNGtext_encode (bstr ''other'') (bstr ''hello''))"
  by (simp add: wfChunk_def PNGtext_encode_def tEXt_def IEND_def bstr_def)

lemma extract_noTextPng: "extractChunks noTextPng = Inr [sampleHeaderChunk, Chunk IEND []]"
  using extract_encode [of "[sampleHeaderChunk]"] wf_sampleHeaderChunk
  by (simp add: noTextPng_def)

lemma extract_otherTextPng:
  "extractChunks otherTextPng =
     Inr [sampleHeaderChunk, PNGtext_encode (bstr ''other'') (bstr ''hello''), Chunk IEND []]"
  using extract_encode [of "[sampleHeaderChunk, PNGtext_encode (bstr ''other'') (bstr ''hello'')]"]
    wf_sampleHeaderChunk wf_otherText
  by (simp add: otherTextPng_def)

lemma structure_noTextPng:
  "pngStructureError noTextPng =
     Error (ustr ''PNG file does not contain any text chunks (not a character card)'')"
  by (simp add: pngStructureError_def extract_noTextPng sampleHeaderChunk_def IHDR_def IEND_def tEXt_def)

lemma structure_otherTextPng:
  "pngStructureError otherTextPng =
     Error (ustr ''PNG file does not contain character card data (chara or ccv3 chunks)'')"
  by (simp add: pngStructureError_def extract_otherTextPng sampleHeaderChunk_def IHDR_def IEND_def
      tEXt_def PNGtext_encode_def PNGtext_decode_def isCharaKeyword_def toLowerCase8_def bstr_def)

lemma header_encodeChunks: "take 8 (encodeChunks cs) = validPngHeader"
  by (simp add: encodeChunks_def validPngHeader_def)

lemma sample_read_png: "parser_read sampleEnv fl (Buffer (encodeChunks cs)) = Inl (Error (ustr ''No PNG metadata.''))"
  by (simp add: sample_env_simps encodeChunks_def validPngHeader_def bstr_def)

text \<open>
  C1: a PNG import whose metadata cannot be read fails with the specific classification of
  the failure. The code does so for a missing signature, but not for the other two classes:
  \<^verbatim>\<open>readCharacterData\<close> catches every error and returns \<^verbatim>\<open>undefined\<close>, so the \<^verbatim>\<open>catch\<close> block
  with the chunk analysis is never entered, and every image that \<^verbatim>\<open>read\<close> rejects, from the
  buffer and from the path, fails with the same message.
\<close>

theorem C1_failure_classification:
  "(readFileSync fs uploadPath = Inr fileBuffer \<and> take 8 fileBuffer \<noteq> validPngHeader \<longrightarrow>
      fst (importFromPng E fs uploadPath uploaderHandle uploaderName preservedFileName) =
        Inl (Error (ustr ''Invalid PNG file header''))) \<and>
   (readFileSync fs uploadPath = Inr fileBuffer \<and> take 8 fileBuffer = validPngHeader \<and>
    parser_read E (files fs) (Buffer fileBuffer) = Inl e1 \<and>
    parser_read E (files fs) (FilePath uploadPath) = Inl e2 \<longrightarrow>
      fst (importFromPng E fs uploadPath uploaderHandle uploaderName preservedFileName) =
        Inl (Error (ustr ''Failed to read character data from PNG'')))"
proof -
  have u: "existsSync fs uploadPath \<Longrightarrow> fst (unlinkSync fs uploadPath) = Inr ()"
    by (simp add: unlinkSync_def)
  have a: "fst (importFromPng E fs uploadPath uploaderHandle uploaderName preservedFileName) =
        Inl (Error (ustr ''Invalid PNG file header''))"
    if "readFileSync fs uploadPath = Inr fileBuffer" "take 8 fileBuffer \<noteq> validPngHeader"
  proof -
    from that have "importFromPng_try E fs uploadPath uploaderHandle uploaderName preservedFileName =
        (Inl (Error (ustr ''Invalid PNG file header'')), fs)"
      by (simp add: importFromPng_try_def)
    then show ?thesis
      by (simp add: importFromPng_def unlinkSync_def)
  qed
  have b: "fst (importFromPng E fs uploadPath uploaderHandle uploaderName preservedFileName) =
        Inl (Error (ustr ''Failed to read character data from PNG''))"
    if "readFileSync fs uploadPath = Inr fileBuffer" "take 8 fileBuffer = validPngHeader"
      "parser_read E (files fs) (Buffer fileBuffer) = Inl e1"
      "parser_read E (files fs) (FilePath uploadPath) = Inl e2"
  proof -
    from that have "importFromPng_try E fs uploadPath uploaderHandle uploaderName preservedFileName =
        (Inl (Error (ustr ''Failed to read character data from PNG'')), fs)"
      by (simp add: importFromPng_try_def readCharacterData_def)
    then show ?thesis
      by (simp add: importFromPng_def unlinkSync_def)
  qed
  from a b show ?thesis by blast
qed

theorem C1_witness:
  "pngStructureError noTextPng =
     Error (ustr ''PNG file does not contain any text chunks (not a character card)'') \<and>
   pngStructureError otherTextPng =
     Error (ustr ''PNG file does not contain character card data (chara or ccv3 chunks)'') \<and>
   fst (importFromPng sampleEnv (sampleFs noTextPng) (ustr ''uploads/tmp1'') (ustr ''alice'') (ustr ''Alice'') None) =
     Inl (Error (ustr ''Failed to read character data from PNG'')) \<and>
   fst (importFromPng sampleEnv (sampleFs otherTextPng) (ustr ''uploads/tmp1'') (ustr ''alice'') (ustr ''Alice'') None) =
     Inl (Error (ustr ''Failed to read character data from PNG'')) \<and>
   fst (importFromPng sampleEnv (sampleFs (bstr ''not a png'')) (ustr ''uploads/tmp1'') (ustr ''alice'') (ustr ''Alice'') None) =
     Inl (Error (ustr ''Invalid PNG file header''))"
proof -
  have r: "readFileSync (sampleFs content) (ustr ''uploads/tmp1'') = Inr content" for content
    by (simp add: readFileSync_def sampleFs_def)
  have p: "parser_read sampleEnv fl (FilePath (ustr ''uploads/tmp1'')) = Inl (Error (ustr ''Invalid .png file header''))" for fl
    by (simp add: sample_env_simps)
  have n: "take 8 (bstr ''not a png'') \<noteq> validPngHeader"
    by (simp add: bstr_def validPngHeader_def)
  have 1: "fst (importFromPng sampleEnv (sampleFs noTextPng) (ustr ''uploads/tmp1'') (ustr ''alice'') (ustr ''Alice'') None) =
     Inl (Error (ustr ''Failed to read character data from PNG''))"
    using C1_failure_classification [of "sampleFs noTextPng" "ustr ''uploads/tmp1''" noTextPng sampleEnv]
      r [of noTextPng] p
    by (simp add: noTextPng_def header_encodeChunks sample_read_png)
  have 2: "fst (importFromPng sampleEnv (sampleFs otherTextPng) (ustr ''uploads/tmp1'') (ustr ''alice'') (ustr ''Alice'') None) =
     Inl (Error (ustr ''Failed to read character data from PNG''))"
    using C1_failure_classification [of "sampleFs otherTextPng" "ustr ''uploads/tmp1''" otherTextPng sampleEnv]
      r [of otherTextPng] p
    by (simp add: otherTextPng_def header_encodeChunks sample_read_png)
  have 3: "fst (importFromPng sampleEnv (sampleFs (bstr ''not a png'')) (ustr ''uploads/tmp1'') (ustr ''alice'') (ustr ''Alice'') None) =
     Inl (Error (ustr ''Invalid PNG file header''))"
    using C1_failure_classification [of "sampleFs (bstr ''not a png'')" "ustr ''uploads/tmp1''" "bstr ''not a png''" sampleEnv]
      r [of "bstr ''not a png''"] n
    by simp
  from 1 2 3 structure_noTextPng structure_otherTextPng show ?thesis by simp
qed

section \<open>Properties of the container codec\<close>

subsection \<open>Base64\<close>

lemma unat_of_nat_byte: "k < 256 \<Longrightarrow> unat (of_nat k :: byte) = k"
  by (simp add: unat_of_nat)

lemma b64index_b64char:
  assumes "i < 64"
  shows "b64index (b64char i) = Some i"
proof -
  consider "i < 26" | "26 \<le> i" "i < 52" | "52 \<le> i" "i < 62" | "i = 62" | "i = 63"
    using assms by linarith
  then show ?thesis
  proof cases
    case 1
    then have "unat (b64char i) = unat (of_nat (65 + i) :: byte)"
      by (simp add: b64char_def)
    also from 1 have "\<dots> = 65 + i"
      by (intro unat_of_nat_byte) simp
    finally have "unat (b64char i) = 65 + i" .
    with 1 show ?thesis by (auto simp: b64index_def Let_def)
  next
    case 2
    then have "unat (b64char i) = unat (of_nat (71 + i) :: byte)"
      by (simp add: b64char_def)
    also from 2 have "\<dots> = 71 + i"
      by (intro unat_of_nat_byte) simp
    finally have "unat (b64char i) = 71 + i" .
    with 2 show ?thesis by (auto simp: b64index_def Let_def)
  next
    case 3
    then have "unat (b64char i) = unat (of_nat (i - 4) :: byte)"
      by (simp add: b64char_def)
    also from 3 have "\<dots> = i - 4"
      by (intro unat_of_nat_byte) simp
    finally have "unat (b64char i) = i - 4" .
    with 3 show ?thesis by (auto simp: b64index_def Let_def)
  next
    case 4
    then show ?thesis by (simp add: b64char_def b64index_def)
  next
    case 5
    then show ?thesis by (simp add: b64char_def b64index_def)
  qed
qed

lemma b64index_pad: "b64index 61 = None"
  by (simp add: b64index_def)

lemma unat_byte_lt: "unat (a :: byte) < 256"
  using unsigned_less [of a, where ?'a = nat] by simp

lemma div_mod_pack:
  fixes x q d :: nat
  assumes "q < d"
  shows "(x * d + q) div d = x" and "(x * d + q) mod d = q"
  using assms by simp_all

lemma base64_group:
  fixes a b c :: byte
  shows "(of_nat (unat a div 4 * 4 + (unat a mod 4 * 16 + unat b div 16) div 16) :: byte) = a"
    and "(of_nat ((unat a mod 4 * 16 + unat b div 16) mod 16 * 16 + (unat b mod 16 * 4 + unat c div 64) div 4) :: byte) = b"
    and "(of_nat ((unat b mod 16 * 4 + unat c div 64) mod 4 * 64 + unat c mod 64) :: byte) = c"
proof -
  have b16: "unat b div 16 < 16"
    using unat_byte_lt [of b] by (simp add: div_less_iff_less_mult)
  have c64: "unat c div 64 < 4"
    using unat_byte_lt [of c] by (simp add: div_less_iff_less_mult)
  have 1: "(unat a mod 4 * 16 + unat b div 16) div 16 = unat a mod 4"
    using b16 by (rule div_mod_pack)
  have 2: "(unat a mod 4 * 16 + unat b div 16) mod 16 = unat b div 16"
    using b16 by (rule div_mod_pack)
  have 3: "(unat b mod 16 * 4 + unat c div 64) div 4 = unat b mod 16"
    using c64 by (rule div_mod_pack)
  have 4: "(unat b mod 16 * 4 + unat c div 64) mod 4 = unat c div 64"
    using c64 by (rule div_mod_pack)
  show "(of_nat (unat a div 4 * 4 + (unat a mod 4 * 16 + unat b div 16) div 16) :: byte) = a"
    by (simp only: 1 div_mult_mod_eq) simp
  show "(of_nat ((unat a mod 4 * 16 + unat b div 16) mod 16 * 16 + (unat b mod 16 * 4 + unat c div 64) div 4) :: byte) = b"
    by (simp only: 2 3 div_mult_mod_eq) simp
  show "(of_nat ((unat b mod 16 * 4 + unat c div 64) mod 4 * 64 + unat c mod 64) :: byte) = c"
    by (simp only: 4 div_mult_mod_eq) simp
qed


lemma base64_bounds:
  fixes a b c :: byte
  shows "unat a div 4 < 64" and "unat a mod 4 * 16 + unat b div 16 < 64"
    and "unat b mod 16 * 4 + unat c div 64 < 64" and "unat c mod 64 < 64"
    and "unat a mod 4 * 16 < 64" and "unat b mod 16 * 4 < 64"
proof -
  have b16: "unat b div 16 < 16"
    using unat_byte_lt [of b] by (simp add: div_less_iff_less_mult)
  have c64: "unat c div 64 < 4"
    using unat_byte_lt [of c] by (simp add: div_less_iff_less_mult)
  have a4: "unat a mod 4 < 4" and b4: "unat b mod 16 < 16" by simp_all
  show "unat a div 4 < 64"
    using unat_byte_lt [of a] by (simp add: div_less_iff_less_mult)
  show "unat a mod 4 * 16 + unat b div 16 < 64" using a4 b16 by linarith
  show "unat b mod 16 * 4 + unat c div 64 < 64" using b4 c64 by linarith
  show "unat c mod 64 < 64" by simp
  show "unat a mod 4 * 16 < 64" using a4 by linarith
  show "unat b mod 16 * 4 < 64" using b4 by linarith
qed

lemma decode_quad:
  assumes "i < 64" "j < 64" "k < 64" "l < 64"
  shows "base64_decode (b64char i # b64char j # b64char k # b64char l # rest) =
           [of_nat (i * 4 + j div 16), of_nat (j mod 16 * 16 + k div 4), of_nat (k mod 4 * 64 + l)] @
           base64_decode rest"
  using assms by (simp add: b64index_b64char del: of_nat_add of_nat_mult)

lemma decode_pad1:
  assumes "i < 64" "j < 64" "k < 64"
  shows "base64_decode [b64char i, b64char j, b64char k, 61] =
           [of_nat (i * 4 + j div 16), of_nat (j mod 16 * 16 + k div 4)]"
  using assms by (simp add: b64index_b64char b64index_pad del: of_nat_add of_nat_mult)

lemma decode_pad2:
  assumes "i < 64" "j < 64"
  shows "base64_decode [b64char i, b64char j, 61, 61] = [of_nat (i * 4 + j div 16)]"
  using assms by (simp add: b64index_b64char b64index_pad del: of_nat_add of_nat_mult)

lemma base64_round_trip: "base64_decode (base64_encode bs) = bs"
proof (induction bs rule: base64_encode.induct)
  case 1
  show ?case by simp
next
  case (2 a)
  have g: "(of_nat (unat a div 4 * 4 + unat a mod 4 * 16 div 16) :: byte) = a"
    using base64_group(1) [of a 0] by simp
  have "base64_decode (base64_encode [a]) = [of_nat (unat a div 4 * 4 + unat a mod 4 * 16 div 16)]"
    by (simp only: base64_encode.simps decode_pad2 [OF base64_bounds(1) base64_bounds(5)])
  then show ?case by (simp only: g)
next
  case (3 a b)
  have g1: "(of_nat (unat a div 4 * 4 + (unat a mod 4 * 16 + unat b div 16) div 16) :: byte) = a"
    by (rule base64_group)
  have g2: "(of_nat ((unat a mod 4 * 16 + unat b div 16) mod 16 * 16 + unat b mod 16 * 4 div 4) :: byte) = b"
    using base64_group(2) [of a b 0] by simp
  have "base64_decode (base64_encode [a, b]) =
      [of_nat (unat a div 4 * 4 + (unat a mod 4 * 16 + unat b div 16) div 16),
       of_nat ((unat a mod 4 * 16 + unat b div 16) mod 16 * 16 + unat b mod 16 * 4 div 4)]"
    by (simp only: base64_encode.simps decode_pad1 [OF base64_bounds(1) base64_bounds(2) base64_bounds(6)])
  then show ?case by (simp only: g1 g2)
next
  case (4 a b c rest)
  have "base64_decode (base64_encode (a # b # c # rest)) =
      [of_nat (unat a div 4 * 4 + (unat a mod 4 * 16 + unat b div 16) div 16),
       of_nat ((unat a mod 4 * 16 + unat b div 16) mod 16 * 16 + (unat b mod 16 * 4 + unat c div 64) div 4),
       of_nat ((unat b mod 16 * 4 + unat c div 64) mod 4 * 64 + unat c mod 64)] @
      base64_decode (base64_encode rest)"
    by (simp only: base64_encode.simps append_Cons append_Nil
        decode_quad [OF base64_bounds(1) base64_bounds(2) base64_bounds(3) base64_bounds(4)])
  then show ?case
    by (simp only: base64_group "4.IH" append_Cons append_Nil)
qed

subsection \<open>Chunk streams and the round trip\<close>

lemma length_readBytes [simp]: "length (readBytes bs n) = n"
  by (simp add: readBytes_def)

lemma uint32_lt: "length bs = 4 \<Longrightarrow> uint32 bs < 2 ^ 32"
proof -
  have "unat (bs ! 0) < 256" "unat (bs ! 1) < 256" "unat (bs ! 2) < 256" "unat (bs ! 3) < 256"
    by (rule unat_byte_lt)+
  then show ?thesis
    by (simp add: uint32_def)
qed

lemma extractFrom_wf:
  assumes "extractFrom acc bs = Inr cs" and "list_all wfChunk acc"
    and "acc \<noteq> [] \<longrightarrow> chunk_name (hd acc) = IHDR"
  shows "\<exists>inner. cs = inner @ [Chunk IEND []] \<and> inner \<noteq> [] \<and> chunk_name (hd inner) = IHDR \<and>
           list_all wfChunk inner"
  using assms
proof (induction acc bs rule: extractFrom.induct)
  case (1 chunks bs)
  let ?len = "uint32 (readBytes bs 4)"
  let ?name = "readBytes (drop 4 bs) 4"
  let ?dat = "readBytes (drop 8 bs) ?len"
  let ?crc = "readBytes (drop (8 + ?len) bs) 4"
  from "1.prems"(1) have ne: "bs \<noteq> []"
    by (subst (asm) extractFrom.simps) (auto split: if_splits)
  from "1.prems"(1) ne have first: "\<not> (chunks = [] \<and> ?name \<noteq> IHDR)"
    by (subst (asm) extractFrom.simps) (auto simp: Let_def split: if_splits)
  show ?case
  proof (cases "?name = IEND")
    case True
    with "1.prems"(1) ne first have cs: "cs = chunks @ [Chunk IEND []]"
      by (subst (asm) extractFrom.simps) (auto simp: Let_def split: if_splits)
    have "IEND \<noteq> IHDR" by (simp add: IEND_def IHDR_def)
    with first True have "chunks \<noteq> []" by auto
    with cs "1.prems"(2,3) show ?thesis by blast
  next
    case False
    with "1.prems"(1) ne first have crc: "word_be32 (crc32 (?name @ ?dat)) = ?crc"
      and rec: "extractFrom (chunks @ [Chunk ?name ?dat]) (drop (12 + ?len) bs) = Inr cs"
      by (subst (asm) extractFrom.simps; auto simp: Let_def split: if_splits)+
    have "?len < 2 ^ 32" by (rule uint32_lt) simp
    with False have wf: "wfChunk (Chunk ?name ?dat)"
      by (simp add: wfChunk_def)
    with "1.prems"(2) have wfs: "list_all wfChunk (chunks @ [Chunk ?name ?dat])" by simp
    from first "1.prems"(3) have hd: "chunks @ [Chunk ?name ?dat] \<noteq> [] \<longrightarrow>
        chunk_name (hd (chunks @ [Chunk ?name ?dat])) = IHDR"
      by (cases chunks) auto
    from crc have crc': "\<not> word_be32 (crc32 (?name @ ?dat)) \<noteq> ?crc" by simp
    show ?thesis
      using "1.IH" [OF ne refl refl first False refl refl crc' rec wfs hd] .
  qed
qed


lemma extractChunks_wf:
  assumes "extractChunks img = Inr cs"
  shows "\<exists>inner. cs = inner @ [Chunk IEND []] \<and> inner \<noteq> [] \<and> chunk_name (hd inner) = IHDR \<and>
           list_all wfChunk inner"
proof -
  from assms have "extractFrom [] (drop 8 img) = Inr cs"
    by (auto simp: extractChunks_def split: if_splits)
  then show ?thesis by (rule extractFrom_wf) simp_all
qed

lemma not_card_IEND: "\<not> isCardSegment (Chunk IEND d)"
  by (simp add: isCardSegment_def IEND_def tEXt_def)

lemma not_card_IHDR: "chunk_name c = IHDR \<Longrightarrow> \<not> isCardSegment c"
  by (simp add: isCardSegment_def IHDR_def tEXt_def)

lemma keyword_chara: "segmentKeyword (PNGtext_encode (bstr ''chara'') t) = bstr ''chara''"
  by (simp add: segmentKeyword_def PNGtext_encode_def bstr_def)

lemma text_chara: "segmentText (PNGtext_encode (bstr ''chara'') t) = t"
  by (simp add: segmentText_def keyword_chara) (simp add: PNGtext_encode_def bstr_def)

lemma card_chara: "isCardSegment (PNGtext_encode (bstr ''chara'') t)"
  by (simp add: isCardSegment_def keyword_chara isCharaKeyword_def)
     (simp add: PNGtext_encode_def toLowerCase8_def bstr_def)

lemma wf_chara:
  "length t + 6 < 2 ^ 32 \<Longrightarrow> wfChunk (PNGtext_encode (bstr ''chara'') t)"
  by (simp add: wfChunk_def PNGtext_encode_def tEXt_def IEND_def bstr_def)

lemma hd_filter: "xs \<noteq> [] \<Longrightarrow> P (hd xs) \<Longrightarrow> filter P xs \<noteq> [] \<and> hd (filter P xs) = hd xs"
  by (cases xs) simp_all

text \<open>
  C2 (round-trip law): for every payload, decoding the container produced by encoding the
  payload into a valid image (the default image) yields the payload again, byte for byte.
  The payload must fit a chunk: its base64 text and the keyword take less than \<open>2 ^ 32\<close>
  bytes.
\<close>

theorem C2_round_trip:
  assumes img: "extractChunks defaultImage = Inr chunks"
    and size: "length (base64_encode payload) + 6 < 2 ^ 32"
  shows "\<exists>container. encode defaultImage payload = Inr container \<and> decode container = Inr payload"
proof -
  from extractChunks_wf [OF img] obtain inner where
    cs: "chunks = inner @ [Chunk IEND []]" and ne: "inner \<noteq> []"
    and hd: "chunk_name (hd inner) = IHDR" and wf: "list_all wfChunk inner"
    by blast
  let ?new = "PNGtext_encode (bstr ''chara'') (base64_encode payload)"
  let ?kept = "filter (\<lambda>c. \<not> isCardSegment c) inner"
  let ?out = "(?kept @ [?new]) @ [Chunk IEND []]"
  have kept: "filter (\<lambda>c. \<not> isCardSegment c) chunks = ?kept @ [Chunk IEND []]"
    by (simp add: cs not_card_IEND)
  have enc: "encode defaultImage payload = Inr (encodeChunks ?out)"
    by (simp add: encode_def img kept Let_def)
  have kne: "?kept \<noteq> []" and khd: "hd ?kept = hd inner"
    using hd_filter [OF ne, of "\<lambda>c. \<not> isCardSegment c"] not_card_IHDR [OF hd] by simp_all
  have wfs: "list_all wfChunk (?kept @ [?new])"
    using wf wf_chara [OF size] by (simp add: list_all_iff)
  have hd': "chunk_name (hd (?kept @ [?new])) = IHDR"
    using kne khd hd by simp
  have ex: "extractChunks (encodeChunks ?out) = Inr ?out"
    using wfs _ hd' by (rule extract_encode) simp
  have none: "filter isCardSegment ?kept = []"
    by (induction inner) simp_all
  have hdr: "take 8 (encodeChunks ?out) = validPngHeader"
    by (rule header_encodeChunks)
  have "decode (encodeChunks ?out) = Inr (base64_decode (segmentText ?new))"
    unfolding decode_def hdr ex
    by (simp add: none card_chara not_card_IEND)
  then have "decode (encodeChunks ?out) = Inr payload"
    by (simp only: text_chara base64_round_trip)
  with enc show ?thesis by blast
qed

theorem C2_witness:
  "extractChunks noTextPng = Inr [sampleHeaderChunk, Chunk IEND []] \<and>
   length (base64_encode (bstr ''{\"name\":\"Aria\"}'')) + 6 < (2 :: nat) ^ 32 \<and>
   (\<exists>container. encode noTextPng (bstr ''{\"name\":\"Aria\"}'') = Inr container \<and>
      decode container = Inr (bstr ''{\"name\":\"Aria\"}''))"
proof -
  have s: "length (base64_encode (bstr ''{\"name\":\"Aria\"}'')) + 6 < (2 :: nat) ^ 32"
    by (simp add: bstr_def)
  from C2_round_trip [OF extract_noTextPng s] extract_noTextPng s show ?thesis by simp
qed

end
